theory Spec2Isabelle
  imports Complex_Main "HOL-Library.Multiset" "HOL-Library.Log_Nat"
begin

text \<open>
  A shallow embedding of the agent event and scheduling runtime of Puppet Engine: the post
  scheduler (\<open>behavior-randomizer\<close>), the reaction pipeline, the mention poll, the API
  error backoff and the conversation resolver of the agent manager
  (\<open>agents/agent-manager.js\<close>), the relationship store of the memory manager and the
  event engine. Mutable objects become records that are passed and returned; a thrown
  error is the \<open>Inl\<close> of a sum; what the Twitter client, the LLM provider, the clock and
  \<open>Math.random()\<close> answer is a parameter of the function that asks; an \<open>async\<close> function
  is run to its end, except for the drain loop of the event engine, whose suspension at
  \<open>await\<close> is a state of the model.
\<close>

section \<open>JavaScript strings and values\<close>

text \<open>
  Strings are lists of 8-bit characters; \<open>toLowerCase\<close> is modelled on the ASCII
  letters, \<open>\w\<close> as \<open>[A-Za-z0-9_]\<close> and \<open>\s\<close> as the ASCII white space. A JavaScript
  value that may be \<open>null\<close> or \<open>undefined\<close> is an \<open>option\<close>; an empty string is falsy,
  as in the source's \<open>a && b\<close> tests.
\<close>

definition lowerChar :: "char \<Rightarrow> char" where
  "lowerChar c =
     (let n = (of_char c :: nat) in if 65 \<le> n \<and> n \<le> 90 then char_of (n + 32) else c)"

definition toLowerCase :: "string \<Rightarrow> string" where
  "toLowerCase s = map lowerChar s"

fun startsWith :: "string \<Rightarrow> string \<Rightarrow> bool" where
  "startsWith s [] = True"
| "startsWith [] (c # cs) = False"
| "startsWith (x # xs) (c # cs) = (x = c \<and> startsWith xs cs)"

fun includesStr :: "string \<Rightarrow> string \<Rightarrow> bool" where
  "includesStr [] sub = (sub = [])"
| "includesStr (x # xs) sub = (startsWith (x # xs) sub \<or> includesStr xs sub)"

definition truthy :: "string option \<Rightarrow> bool" where
  "truthy v = (case v of None \<Rightarrow> False | Some s \<Rightarrow> s \<noteq> [])"

definition isWordChar :: "char \<Rightarrow> bool" where
  "isWordChar c =
     (let n = (of_char c :: nat)
      in (48 \<le> n \<and> n \<le> 57) \<or> (65 \<le> n \<and> n \<le> 90) \<or> (97 \<le> n \<and> n \<le> 122) \<or> n = 95)"

definition isSpaceChar :: "char \<Rightarrow> bool" where
  "isSpaceChar c = (let n = (of_char c :: nat) in n = 32 \<or> (9 \<le> n \<and> n \<le> 13))"

text \<open>\<open>content.replace(/@\w+\s?/g, '')\<close> of \<open>createAgentPost\<close> (line 358).\<close>

function stripMentions :: "string \<Rightarrow> string" where
  "stripMentions [] = []"
| "stripMentions (c # cs) =
     (if c = CHR ''@'' \<and> takeWhile isWordChar cs \<noteq> []
      then (case dropWhile isWordChar cs of
              [] \<Rightarrow> []
            | r # rs \<Rightarrow> if isSpaceChar r then stripMentions rs else stripMentions (r # rs))
      else c # stripMentions cs)"
  by pat_completeness auto
termination
proof (relation "measure length")
  show "wf (measure length)" by simp
next
  fix c :: char and cs x21 x22
  assume "dropWhile isWordChar cs = x21 # x22"
  then have "length (x21 # x22) \<le> length cs"
    by (metis length_dropWhile_le)
  then show "(x22, c # cs) \<in> measure length" by simp
next
  fix c :: char and cs x21 x22
  assume "dropWhile isWordChar cs = x21 # x22"
  then have "length (x21 # x22) \<le> length cs"
    by (metis length_dropWhile_le)
  then show "(x21 # x22, c # cs) \<in> measure length" by simp
next
  fix c :: char and cs
  show "(cs, c # cs) \<in> measure length" by simp
qed

section \<open>JavaScript numbers\<close>

text \<open>
  A JavaScript number is an IEEE 754 binary64 value. The model keeps a number as the
  rational it denotes and rounds the exact result of every arithmetic operation of the
  scheduler to the nearest value with a 53-bit significand, ties to the even significand
  (\<open>toDouble\<close>). The exponent is not bounded: the magnitudes that occur here, intervals of
  some hours in milliseconds and products of a draw with a constant, are far from
  overflow and from the subnormal range. Constants such as \<open>0.7\<close> are the doubles nearest
  to the decimal written in the source. Comparisons, \<open>Math.min\<close>, \<open>Math.max\<close> and
  \<open>Math.floor\<close> are exact.
\<close>

definition pow2 :: "int \<Rightarrow> rat" where
  "pow2 e = (if 0 \<le> e then 2 ^ nat e else 1 / 2 ^ nat (- e))"

text \<open>\<open>floorLog2 x\<close> is the integer \<open>k\<close> with \<open>2^k \<le> x < 2^(k+1)\<close>, for \<open>x > 0\<close>.\<close>

definition floorLog2 :: "rat \<Rightarrow> int" where
  "floorLog2 x =
     (let p = fst (quotient_of x); q = snd (quotient_of x); d = bitlen p - bitlen q
      in if pow2 d \<le> x then d else d - 1)"

definition roundHalfEven :: "rat \<Rightarrow> int" where
  "roundHalfEven m =
     (let f = \<lfloor>m\<rfloor>; r = m - of_int f
      in if r < 1 / 2 then f else if 1 / 2 < r then f + 1 else if even f then f else f + 1)"

definition toDouble :: "rat \<Rightarrow> rat" where
  "toDouble x =
     (if x = 0 then 0
      else let e = floorLog2 \<bar>x\<bar> - 52
           in sgn x * of_int (roundHalfEven (\<bar>x\<bar> / pow2 e)) * pow2 e)"

section \<open>Post scheduler: \<open>getNextPostInterval\<close> (behavior-randomizer)\<close>

text \<open>
  Every \<open>Math.random()\<close> call site is a field of a record of draws, so that a statement
  "for every outcome of the random draws" is a statement for every such record with
  fields in \<open>[0, 1)\<close>. The wall-clock hour \<open>new Date().getHours()\<close> is a parameter. The
  configured hours and the draws are numbers of the program, that is, doubles.
\<close>

record post_frequency =
  minHoursBetweenPosts :: rat
  maxHoursBetweenPosts :: rat
  peakPostingHours :: "nat list"

record sched_draws =
  rBase :: rat    \<comment> \<open>line 21: position of the base interval between min and max\<close>
  rScale :: rat   \<comment> \<open>line 30 or line 33: the peak or off-peak scale\<close>
  rCoin :: rat    \<comment> \<open>line 38: whether extra delay is added\<close>
  rExtra :: rat   \<comment> \<open>line 39: the extra delay, drawn only when the coin exceeds 0.5\<close>

text \<open>\<open>hours * 60 * 60 * 1000\<close>, multiplied from the left as JavaScript does.\<close>

definition hoursToMs :: "rat \<Rightarrow> rat" where
  "hoursToMs hours = toDouble (toDouble (toDouble (hours * 60) * 60) * 1000)"

definition minMs :: "post_frequency \<Rightarrow> rat" where
  "minMs pf = hoursToMs (minHoursBetweenPosts pf)"

definition maxMs :: "post_frequency \<Rightarrow> rat" where
  "maxMs pf = hoursToMs (maxHoursBetweenPosts pf)"

definition isPeakHour :: "post_frequency \<Rightarrow> nat \<Rightarrow> bool" where
  "isPeakHour pf currentHour \<longleftrightarrow> currentHour \<in> set (peakPostingHours pf)"

definition getNextPostInterval :: "post_frequency \<Rightarrow> nat \<Rightarrow> sched_draws \<Rightarrow> int" where
  "getNextPostInterval pf currentHour d =
     (let interval0 = toDouble (minMs pf + toDouble (rBase d * toDouble (maxMs pf - minMs pf)));
          variation = toDouble (rScale d * toDouble (2 / 10));
          interval1 = (if isPeakHour pf currentHour
                       then toDouble (interval0 * toDouble (toDouble (7 / 10) + variation))
                       else toDouble (interval0 * toDouble (toDouble (11 / 10) + variation)));
          interval2 = (if rCoin d > 1 / 2
                       then toDouble (interval1 +
                              toDouble (toDouble (toDouble (rExtra d * 5) * 60) * 1000))
                       else interval1);
          interval3 = min interval2 (maxMs pf)
      in \<lfloor>interval3\<rfloor>)"

section \<open>Core types (\<open>core/types.js\<close>) and the memory manager\<close>

record relationship =
  targetAgentId :: string
  sentiment :: rat                      \<comment> \<open>documented as -1.0 to 1.0\<close>
  familiarity :: rat                    \<comment> \<open>documented as 0.0 to 1.0\<close>
  trust :: rat                          \<comment> \<open>documented as 0.0 to 1.0\<close>
  lastInteractionDate :: "int option"
  recentInteractions :: "string list"
  sharedExperiences :: "string list"
  rel_notes :: "string list"

definition newRelationship :: "string \<Rightarrow> relationship" where
  "newRelationship target =
     \<lparr>targetAgentId = target, sentiment = 0, familiarity = 0, trust = 0,
      lastInteractionDate = None, recentInteractions = [], sharedExperiences = [],
      rel_notes = []\<rparr>"

text \<open>
  The \<open>changes\<close> object of \<open>updateRelationship\<close>: a key that is absent is \<open>None\<close>. The
  keys the callers pass are the six below, each with a value of the type the branch
  tests for; the source's last branch (any other key is copied) is outside this type.
\<close>

record rel_changes =
  ch_sentiment :: "rat option"
  ch_familiarity :: "rat option"
  ch_trust :: "rat option"
  ch_recentInteractions :: "string list option"
  ch_notes :: "string list option"
  ch_sharedExperiences :: "string list option"

definition clampBounds :: "rat \<Rightarrow> rat" where
  "clampBounds v = max (- 1) (min 1 v)"

definition applyChanges :: "relationship \<Rightarrow> rel_changes \<Rightarrow> int \<Rightarrow> relationship" where
  "applyChanges r ch now =
     (let r1 = (case ch_sentiment ch of None \<Rightarrow> r | Some v \<Rightarrow> r\<lparr>sentiment := clampBounds v\<rparr>);
          r2 = (case ch_familiarity ch of None \<Rightarrow> r1
                | Some v \<Rightarrow> r1\<lparr>familiarity := clampBounds v\<rparr>);
          r3 = (case ch_trust ch of None \<Rightarrow> r2 | Some v \<Rightarrow> r2\<lparr>trust := clampBounds v\<rparr>);
          r4 = (case ch_recentInteractions ch of None \<Rightarrow> r3
                | Some xs \<Rightarrow> r3\<lparr>recentInteractions := take 10 (xs @ recentInteractions r3)\<rparr>);
          r5 = (case ch_notes ch of None \<Rightarrow> r4 | Some xs \<Rightarrow> r4\<lparr>rel_notes := xs @ rel_notes r4\<rparr>);
          r6 = (case ch_sharedExperiences ch of None \<Rightarrow> r5
                | Some xs \<Rightarrow> r5\<lparr>sharedExperiences := xs @ sharedExperiences r5\<rparr>)
      in r6\<lparr>lastInteractionDate := Some now\<rparr>)"

type_synonym rel_store = "string \<Rightarrow> string \<rightharpoonup> relationship"

definition getRelationship :: "rel_store \<Rightarrow> string \<Rightarrow> string \<Rightarrow> relationship" where
  "getRelationship rels agentId target =
     (case rels agentId target of None \<Rightarrow> newRelationship target | Some r \<Rightarrow> r)"

definition updateRelationship ::
  "rel_store \<Rightarrow> string \<Rightarrow> string \<Rightarrow> rel_changes \<Rightarrow> int \<Rightarrow> rel_store \<times> relationship" where
  "updateRelationship rels agentId target ch now =
     (let r = applyChanges (getRelationship rels agentId target) ch now
      in (rels(agentId := (rels agentId)(target \<mapsto> r)), r))"

section \<open>Agent manager: state, collaborators and trace\<close>

record js_error =
  err_message :: string
  err_code :: "int option"      \<comment> \<open>\<open>error.code\<close>\<close>
  err_errors :: "int list"      \<comment> \<open>the codes of \<open>error.errors\<close>; empty when the field is absent\<close>

datatype role = RoleAgent | RoleUser

record conv_entry =
  role :: role
  entry_content :: string
  timestamp :: int

text \<open>
  A tweet as the manager reads it. \<open>createdAt\<close> is the date in epoch milliseconds, \<open>None\<close>
  when the field is \<open>null\<close>. \<open>originalTweet\<close> is only ever tested for presence by the
  manager, so the model keeps that presence as \<open>hasOriginalTweet\<close>.
\<close>

record tweet =
  tweet_id :: string                      \<comment> \<open>the field \<open>id\<close>\<close>
  content :: string
  createdAt :: "int option"
  authorId :: string
  authorUsername :: "string option"
  replyToId :: "string option"
  isDirectMention :: bool
  hasOriginalTweet :: bool
  conversationHistory :: "conv_entry list option"

record interaction_patterns =
  replyProbability :: rat
  quoteTweetProbability :: rat
  likeProbability :: rat

record agent =
  agent_name :: string
  postFrequency :: post_frequency
  interactionPatterns :: interaction_patterns
  lastPostTime :: "int option"

record tweet_data =
  td_content :: string
  td_timestamp :: int
  td_id :: "string option"
  td_isReply :: bool

text \<open>
  The trace lists, in order, the calls the manager makes to its collaborators (the Twitter
  client and the LLM provider) and the insertions into \<open>processedTweetIds\<close>.
\<close>

datatype trace_event =
    CallMe string                               \<comment> \<open>\<open>getClientForAgent(agentId).v2.me()\<close>\<close>
  | DedupInsert string                          \<comment> \<open>\<open>processedTweetIds.add(tweet.id)\<close>\<close>
  | CallGetTweet string                         \<comment> \<open>\<open>twitterClient.getTweet(id)\<close>\<close>
  | CallGetAgentMentions string "string option" \<comment> \<open>\<open>getAgentMentions(agentId, {sinceId})\<close>\<close>
  | CallGenerateReaction string string          \<comment> \<open>\<open>llmProvider.generateReaction(agent, tweet)\<close>\<close>
  | CallGenerateContent string string           \<comment> \<open>\<open>generateContent(agent, {task: 'reply', replyTo})\<close>\<close>
  | CallGenerateTweet string                    \<comment> \<open>\<open>llmProvider.generateTweet(agent, ...)\<close>\<close>
  | CallPostTweet string string "string option" \<comment> \<open>\<open>postTweet(agentId, content, {replyToTweetId})\<close>\<close>
  | CallLikeTweet string string                 \<comment> \<open>\<open>likeTweet(agentId, tweet.id)\<close>\<close>
  | SaveProcessedTweets                         \<comment> \<open>\<open>saveProcessedTweets()\<close>, a file write\<close>

fun isReactionCall :: "trace_event \<Rightarrow> bool" where
  "isReactionCall (CallPostTweet a c r) = True"
| "isReactionCall (CallLikeTweet a t) = True"
| "isReactionCall ev = False"

record manager_state =
  agents :: "string \<rightharpoonup> agent"
  nextPostTimes :: "string \<rightharpoonup> int"
  processedTweetIds :: "string set"
  apiErrorCounts :: "string \<rightharpoonup> nat"
  apiCooldowns :: "string \<rightharpoonup> int"
  relationships :: rel_store                    \<comment> \<open>memory manager: relationships per agent\<close>
  tweetHistory :: "string \<Rightarrow> tweet_data list"    \<comment> \<open>memory manager: \<open>tweetHistory\<close> per agent\<close>
  maxTweetHistory :: nat
  trace :: "trace_event list"

record rel_update =
  sentimentChange :: rat
  familiarityChange :: rat
  trustChange :: rat
  upd_note :: "string option"

text \<open>
  What the collaborators answer during one invocation; \<open>Inl\<close> is a thrown error. Each
  \<open>Math.random()\<close> call site has its own field. The clock is read once per invocation.
  \<open>e_relUpdate\<close> is the outcome of \<open>this.llmProvider.generateRelationshipUpdate\<close>.
\<close>

record env =
  e_now :: int
  e_hour :: nat
  e_me :: "js_error + string"
  e_getTweet :: "string \<Rightarrow> js_error + tweet"
  e_reaction :: "js_error + string"
  e_rQuote :: rat
  e_rReply :: rat
  e_rLike :: rat
  e_content :: "js_error + string"
  e_post :: "js_error + string"
  e_like :: "js_error + unit"
  e_relUpdate :: "js_error + rel_update"
  e_sched :: sched_draws

definition log_call :: "trace_event \<Rightarrow> manager_state \<Rightarrow> manager_state" where
  "log_call ev s = s\<lparr>trace := trace s @ [ev]\<rparr>"

definition getAgent :: "manager_state \<Rightarrow> string \<Rightarrow> js_error + agent" where
  "getAgent s agentId =
     (case agents s agentId of
        None \<Rightarrow> Inl \<lparr>err_message = ''Agent not found: '' @ agentId, err_code = None,
                      err_errors = []\<rparr>
      | Some a \<Rightarrow> Inr a)"

definition scheduleNextPost :: "manager_state \<Rightarrow> string \<Rightarrow> env \<Rightarrow> js_error + manager_state" where
  "scheduleNextPost s agentId e =
     (case getAgent s agentId of
        Inl err \<Rightarrow> Inl err
      | Inr a \<Rightarrow>
          let nextPostInterval = getNextPostInterval (postFrequency a) (e_hour e) (e_sched e);
              nextPostTime = e_now e + nextPostInterval
          in Inr (s\<lparr>nextPostTimes := (nextPostTimes s)(agentId \<mapsto> nextPostTime)\<rparr>))"

definition addTweetToAgentMemory :: "manager_state \<Rightarrow> string \<Rightarrow> tweet_data \<Rightarrow> manager_state" where
  "addTweetToAgentMemory s agentId td =
     (let h = td # tweetHistory s agentId;
          h' = (if length h > maxTweetHistory s then take (maxTweetHistory s) h else h)
      in s\<lparr>tweetHistory := (tweetHistory s)(agentId := h')\<rparr>)"

section \<open>Agent manager: \<open>createAgentPost\<close>\<close>

text \<open>
  The constructor always installs a Twitter client, a memory manager and a default LLM
  provider, so the tests \<open>if (this.twitterClient)\<close>, \<open>if (this.memoryManager)\<close> and
  \<open>if (!llmProvider)\<close> go one way and are not branches of the model. The metadata about
  rotating prompts is not read by anything modelled here and is left out of
  \<open>tweet_data\<close>. A failing \<open>postTweet\<close> is caught and logged: the post is then recorded
  with no tweet id.
\<close>

datatype task = TaskNone | TaskReply | TaskQuoteTweet

record post_options =
  task :: task
  replyTo :: "tweet option"
  quoteTweet :: "tweet option"
  avoidContextQuestions :: bool
  ignoreTimeConstraint :: bool

record post_result =
  pr_content :: string
  pr_agentId :: string
  pr_tweetId :: "string option"

definition tooSoon :: "agent \<Rightarrow> int \<Rightarrow> bool" where
  "tooSoon a now =
     (case lastPostTime a of
        None \<Rightarrow> False
      | Some t \<Rightarrow> t \<noteq> 0 \<and> of_int (now - t) < minMs (postFrequency a))"

definition replyToTweetId :: "post_options \<Rightarrow> string option" where
  "replyToTweetId opts =
     (case replyTo opts of
        None \<Rightarrow> None
      | Some t \<Rightarrow> if task opts = TaskReply \<and> tweet_id t \<noteq> [] then Some (tweet_id t) else None)"

definition createAgentPost ::
  "manager_state \<Rightarrow> string \<Rightarrow> post_options \<Rightarrow> env \<Rightarrow> (js_error + post_result option) \<times> manager_state"
where
  "createAgentPost s agentId opts e =
     (case getAgent s agentId of
        Inl err \<Rightarrow> (Inl err, s)
      | Inr a \<Rightarrow>
          if tooSoon a (e_now e) \<and> \<not> ignoreTimeConstraint opts then (Inr None, s)
          else
            let isReply = (task opts = TaskReply \<and> replyTo opts \<noteq> None);
                s1 = (case replyTo opts of
                        Some t \<Rightarrow> if task opts = TaskReply
                                  then log_call (CallGenerateContent agentId (tweet_id t)) s
                                  else log_call (CallGenerateTweet agentId) s
                      | None \<Rightarrow> log_call (CallGenerateTweet agentId) s)
            in case e_content e of
                 Inl err \<Rightarrow> (Inl err, s1)
               | Inr generated \<Rightarrow>
                   let c1 = (if isReply then stripMentions generated else generated);
                       c2 = (if agentId = ''coby-agent'' then toLowerCase c1 else c1);
                       s2 = log_call (CallPostTweet agentId c2 (replyToTweetId opts)) s1;
                       tweetId = (case e_post e of Inl err \<Rightarrow> None | Inr i \<Rightarrow> Some i);
                       s3 = s2\<lparr>agents := (agents s2)(agentId \<mapsto> a\<lparr>lastPostTime := Some (e_now e)\<rparr>)\<rparr>;
                       s4 = addTweetToAgentMemory s3 agentId
                              \<lparr>td_content = c2, td_timestamp = e_now e, td_id = tweetId,
                               td_isReply = (task opts = TaskReply)\<rparr>
                   in case scheduleNextPost s4 agentId e of
                        Inl err \<Rightarrow> (Inl err, s4)
                      | Inr s5 \<Rightarrow>
                          (Inr (Some \<lparr>pr_content = c2, pr_agentId = agentId,
                                      pr_tweetId = tweetId\<rparr>), s5))"

section \<open>Agent manager: \<open>fetchConversationThread\<close>\<close>

text \<open>
  The \<open>try\<close> block of the source covers the fetch, the construction of the entry (where
  \<open>tweet.createdAt.getTime()\<close> throws on a missing date) and the recursive call; the
  \<open>catch\<close> logs and returns. Entries pushed before a throw stay in the array.
\<close>

function fetchConversationThread ::
  "(string \<Rightarrow> js_error + tweet) \<Rightarrow> string \<Rightarrow> conv_entry list \<times> manager_state \<Rightarrow> string \<Rightarrow>
   nat \<Rightarrow> nat \<Rightarrow> conv_entry list \<times> manager_state"
where
  "fetchConversationThread getTweet tweetId (hist, s) agentId depth maxDepth =
     (if depth \<ge> maxDepth then (hist, s)
      else
        let s1 = log_call (CallGetTweet tweetId) s
        in case getTweet tweetId of
             Inl err \<Rightarrow> (hist, s1)
           | Inr tw \<Rightarrow>
               (case createdAt tw of
                  None \<Rightarrow> (hist, s1)
                | Some t \<Rightarrow>
                    let hist1 = hist @ [\<lparr>role = (if authorId tw = agentId then RoleAgent else RoleUser),
                                         entry_content = content tw, timestamp = t\<rparr>]
                    in if truthy (replyToId tw)
                       then fetchConversationThread getTweet (the (replyToId tw)) (hist1, s1)
                              agentId (depth + 1) maxDepth
                       else (hist1, s1)))"
  by pat_completeness auto
termination
  by (relation "measure (\<lambda>(g, t, hs, a, depth, maxDepth). maxDepth - depth)") auto

text \<open>
  \<open>conversationHistory.sort((a, b) => a.timestamp && b.timestamp ? a.timestamp -
  b.timestamp : 0)\<close>: \<open>Array.prototype.sort\<close> is stable; it is modelled as the stable
  insertion sort under the source's comparator.
\<close>

definition compareTimestamps :: "conv_entry \<Rightarrow> conv_entry \<Rightarrow> int" where
  "compareTimestamps a b =
     (if timestamp a \<noteq> 0 \<and> timestamp b \<noteq> 0 then timestamp a - timestamp b else 0)"

fun insertEntry :: "conv_entry \<Rightarrow> conv_entry list \<Rightarrow> conv_entry list" where
  "insertEntry x [] = [x]"
| "insertEntry x (y # ys) =
     (if compareTimestamps y x > 0 then x # y # ys else y # insertEntry x ys)"

definition sortConversation :: "conv_entry list \<Rightarrow> conv_entry list" where
  "sortConversation xs = foldl (\<lambda>acc x. insertEntry x acc) [] xs"

section \<open>Agent manager: \<open>processAgentReaction\<close>\<close>

datatype reaction_result = Posted post_result | Liked string

definition posted ::
  "(js_error + post_result option) \<times> manager_state \<Rightarrow>
   (js_error + reaction_result option) \<times> manager_state" where
  "posted r = (map_sum id (map_option Posted) (fst r), snd r)"

definition isSelfMention :: "string \<Rightarrow> string option \<Rightarrow> tweet \<Rightarrow> bool" where
  "isSelfMention agentId agentUsername tw \<longleftrightarrow>
     authorId tw = agentId \<or>
     (case agentUsername of
        None \<Rightarrow> False
      | Some u \<Rightarrow> u \<noteq> [] \<and>
          (case authorUsername tw of
             None \<Rightarrow> False
           | Some v \<Rightarrow> v \<noteq> [] \<and> toLowerCase v = u))"

text \<open>
  The username lookup at the head of \<open>processAgentReaction\<close>: when \<open>me()\<close> throws, the
  \<open>catch\<close> leaves \<open>agentUsername\<close> at \<open>null\<close>.
\<close>

definition fetchedUsername :: "env \<Rightarrow> string option" where
  "fetchedUsername e = (case e_me e of Inl err \<Rightarrow> None | Inr u \<Rightarrow> Some (toLowerCase u))"

definition isMention :: "agent \<Rightarrow> string \<Rightarrow> tweet \<Rightarrow> bool" where
  "isMention a agentId tw \<longleftrightarrow>
     isDirectMention tw \<or>
     includesStr (toLowerCase (content tw)) (CHR ''@'' # toLowerCase (agent_name a)) \<or>
     includesStr (toLowerCase (content tw)) (CHR ''@'' # toLowerCase agentId) \<or>
     (case replyToId tw of None \<Rightarrow> False | Some r \<Rightarrow> r \<noteq> [] \<and> includesStr r agentId)"

definition currentEntry :: "tweet \<Rightarrow> int \<Rightarrow> conv_entry" where
  "currentEntry tw now =
     \<lparr>role = RoleUser, entry_content = content tw,
      timestamp = (case createdAt tw of Some t \<Rightarrow> t | None \<Rightarrow> now)\<rparr>"

definition mentionContext ::
  "manager_state \<Rightarrow> string \<Rightarrow> tweet \<Rightarrow> env \<Rightarrow> bool \<times> tweet \<times> manager_state" where
  "mentionContext s agentId tw e =
     (if truthy (replyToId tw) then
        let rid = the (replyToId tw);
            s1 = log_call (CallGetTweet rid) s
        in case e_getTweet e rid of
             Inl err \<Rightarrow> (False, tw, s1)
           | Inr originalTweet \<Rightarrow>
               (case conversationHistory tw of
                  Some h \<Rightarrow> (True, tw, s1)
                | None \<Rightarrow>
                    let (hist, s2) = fetchConversationThread (e_getTweet e) rid ([], s1) agentId 0 5;
                        hist' = sortConversation hist @ [currentEntry tw (e_now e)]
                    in (True, tw\<lparr>hasOriginalTweet := True, conversationHistory := Some hist'\<rparr>, s2))
      else (False, tw, s))"

definition asksAboutContext :: "tweet \<Rightarrow> bool" where
  "asksAboutContext tw =
     (let tweetContent = toLowerCase (content tw)
      in includesStr tweetContent ''what'' \<and>
         (includesStr tweetContent ''tweet'' \<or> includesStr tweetContent ''context'' \<or>
          includesStr tweetContent ''talking about''))"

definition mentionPath ::
  "manager_state \<Rightarrow> string \<Rightarrow> tweet \<Rightarrow> env \<Rightarrow> (js_error + reaction_result option) \<times> manager_state"
where
  "mentionPath s agentId tw e =
     (let (hasMeaningfulContext, tw', s1) = mentionContext s agentId tw e
      in if \<not> hasMeaningfulContext \<and> asksAboutContext tw'
         then posted (createAgentPost s1 agentId
                \<lparr>task = TaskReply, replyTo = Some tw', quoteTweet = None,
                 avoidContextQuestions = True, ignoreTimeConstraint = True\<rparr> e)
         else posted (createAgentPost s1 agentId
                \<lparr>task = TaskReply, replyTo = Some tw', quoteTweet = None,
                 avoidContextQuestions = False, ignoreTimeConstraint = True\<rparr> e))"

definition replyContext :: "manager_state \<Rightarrow> string \<Rightarrow> tweet \<Rightarrow> env \<Rightarrow> tweet \<times> manager_state" where
  "replyContext s agentId tw e =
     (if \<not> hasOriginalTweet tw \<and> tweet_id tw \<noteq> [] then
        let hist0 = [currentEntry tw (e_now e)];
            (hist, s1) =
              (if truthy (replyToId tw)
               then let (h, s') = fetchConversationThread (e_getTweet e) (the (replyToId tw))
                                    (hist0, s) agentId 0 5
                    in (sortConversation h, s')
               else (hist0, s))
        in (tw\<lparr>hasOriginalTweet := True, conversationHistory := Some hist\<rparr>, s1)
      else (tw, s))"

definition likeDescription :: "tweet \<Rightarrow> string" where
  "likeDescription tw =
     ''I liked '' @ authorId tw @ [CHR 0x27] @ ''s tweet: '' @ [CHR 0x22] @
     take 50 (content tw) @ ''...'' @ [CHR 0x22]"

text \<open>
  \<open>updateAgentRelationship\<close> is called without \<open>await\<close>: whatever it throws is a rejected
  promise that the caller never sees, so the model returns the state only. It throws in
  every case before it reaches \<open>memoryManager.updateRelationship\<close>. An unknown agent
  throws in \<open>getAgent\<close>. The request to \<open>this.llmProvider\<close> throws when the provider fails
  and also with the manager as constructed, which never assigns \<open>this.llmProvider\<close>. Were
  an update returned, the arguments of the call read \<open>agent.memory.relationships\<close>, and
  \<open>agent.memory\<close> is the promise that \<open>loadAgent\<close> stores without \<open>await\<close> (lines 170 to
  175): \<open>agent.memory.relationships\<close> is \<open>undefined\<close> and indexing it throws.
\<close>

definition updateAgentRelationship ::
  "manager_state \<Rightarrow> string \<Rightarrow> string \<Rightarrow> string \<Rightarrow> env \<Rightarrow> manager_state" where
  "updateAgentRelationship s agentId target description e =
     (case getAgent s agentId of
        Inl err \<Rightarrow> s
      | Inr a \<Rightarrow>
          (case e_relUpdate e of
             Inl err \<Rightarrow> s
           | Inr u \<Rightarrow> s))"

definition reactionPath ::
  "manager_state \<Rightarrow> string \<Rightarrow> agent \<Rightarrow> tweet \<Rightarrow> env \<Rightarrow>
   (js_error + reaction_result option) \<times> manager_state" where
  "reactionPath s agentId a tw e =
     (let s1 = log_call (CallGenerateReaction agentId (tweet_id tw)) s
      in case e_reaction e of
           Inl err \<Rightarrow> (Inl err, s1)
         | Inr suggested \<Rightarrow>
             let ip = interactionPatterns a;
                 action = (if suggested = ''quote'' \<and> e_rQuote e > quoteTweetProbability ip * (1 / 2)
                           then ''ignore'' else suggested)
             in if action = ''reply'' then
                  (if e_rReply e \<le> replyProbability ip then
                     let (tw', s2) = replyContext s1 agentId tw e
                     in posted (createAgentPost s2 agentId
                          \<lparr>task = TaskReply, replyTo = Some tw', quoteTweet = None,
                           avoidContextQuestions = False, ignoreTimeConstraint = True\<rparr> e)
                   else (Inr None, s1))
                else if action = ''quote'' then
                  posted (createAgentPost s1 agentId
                    \<lparr>task = TaskQuoteTweet, replyTo = None, quoteTweet = Some tw,
                     avoidContextQuestions = False, ignoreTimeConstraint = True\<rparr> e)
                else if action = ''like'' then
                  (if e_rLike e \<le> likeProbability ip then
                     let s2 = log_call (CallLikeTweet agentId (tweet_id tw)) s1
                     in case e_like e of
                          Inl err \<Rightarrow> (Inl err, s2)
                        | Inr u \<Rightarrow>
                            (Inr (Some (Liked (tweet_id tw))),
                             updateAgentRelationship s2 agentId (authorId tw)
                               (likeDescription tw) e)
                   else (Inr None, s1))
                else (Inr None, s1))"

definition processAgentReaction ::
  "manager_state \<Rightarrow> string \<Rightarrow> tweet \<Rightarrow> env \<Rightarrow> (js_error + reaction_result option) \<times> manager_state"
where
  "processAgentReaction s agentId tw e =
     (case getAgent s agentId of
        Inl err \<Rightarrow> (Inl err, s)
      | Inr a \<Rightarrow>
          let s0 = log_call (CallMe agentId) s;
              agentUsername = fetchedUsername e
          in if isSelfMention agentId agentUsername tw then (Inr None, s0)
             else if tweet_id tw \<in> processedTweetIds s0 then (Inr None, s0)
             else
               let s1 = log_call (DedupInsert (tweet_id tw))
                          (s0\<lparr>processedTweetIds := insert (tweet_id tw) (processedTweetIds s0)\<rparr>)
               in if isMention a agentId tw then mentionPath s1 agentId tw e
                  else reactionPath s1 agentId a tw e)"

section \<open>Agent manager: API error backoff and the mention poll\<close>

definition isRateLimit :: "js_error \<Rightarrow> bool" where
  "isRateLimit err \<longleftrightarrow> err_code err = Some 429 \<or> list_ex (\<lambda>c. c = 88) (err_errors err)"

definition backoffMinutes :: "nat \<Rightarrow> nat" where
  "backoffMinutes consecutive =
     (if consecutive \<ge> 5 then 60
      else if consecutive \<ge> 4 then 30
      else if consecutive \<ge> 3 then 15
      else if consecutive \<ge> 2 then 5
      else 1)"

definition errorCount :: "manager_state \<Rightarrow> string \<Rightarrow> nat" where
  "errorCount s agentId = (case apiErrorCounts s agentId of None \<Rightarrow> 0 | Some n \<Rightarrow> n)"

definition cooldownMinutes :: "nat \<Rightarrow> js_error \<Rightarrow> nat" where
  "cooldownMinutes consecutive err =
     (if isRateLimit err then max (backoffMinutes consecutive) 15 else backoffMinutes consecutive)"

definition handleApiError :: "manager_state \<Rightarrow> string \<Rightarrow> js_error \<Rightarrow> int \<Rightarrow> manager_state" where
  "handleApiError s agentId err now =
     (let consecutive = errorCount s agentId + 1;
          cooldownMs = int (cooldownMinutes consecutive err) * 60 * 1000
      in s\<lparr>apiErrorCounts := (apiErrorCounts s)(agentId \<mapsto> consecutive),
            apiCooldowns := (apiCooldowns s)(agentId \<mapsto> now + cooldownMs)\<rparr>)"

text \<open>
  The closure variables of \<open>_startPollingMentionsForAgent\<close>, and what the collaborators
  answer during one tick of its interval. \<open>p_env i\<close> holds the answers while the \<open>i\<close>-th
  filtered mention is processed; \<open>p_errNow\<close> is the clock read by \<open>_handleApiError\<close>.
\<close>

record poller =
  lastMentionId :: "string option"
  agentUsername :: "string option"

record poll_env =
  p_now :: int
  p_errNow :: int
  p_me :: "js_error + string"
  p_mentions :: "js_error + tweet list"
  p_env :: "nat \<Rightarrow> env"

definition inCooldown :: "manager_state \<Rightarrow> string \<Rightarrow> int \<Rightarrow> bool" where
  "inCooldown s agentId now =
     (case apiCooldowns s agentId of None \<Rightarrow> False | Some c \<Rightarrow> c \<noteq> 0 \<and> now < c)"

definition mentionWithContext :: "manager_state \<Rightarrow> string \<Rightarrow> tweet \<Rightarrow> env \<Rightarrow> tweet \<times> manager_state" where
  "mentionWithContext s agentId m e =
     (let m1 = m\<lparr>isDirectMention := True\<rparr>
      in if truthy (replyToId m1) then
           let rid = the (replyToId m1);
               s1 = log_call (CallGetTweet rid) s
           in case e_getTweet e rid of
                Inl err \<Rightarrow> (m1, s1)
              | Inr originalTweet \<Rightarrow>
                  let (hist, s2) = fetchConversationThread (e_getTweet e) rid ([], s1) agentId 0 5
                  in (case createdAt m1 of
                        None \<Rightarrow> (m1, s2)
                      | Some t \<Rightarrow>
                          (m1\<lparr>hasOriginalTweet := True,
                              conversationHistory :=
                                Some (sortConversation hist @
                                      [\<lparr>role = RoleUser, entry_content = content m1,
                                        timestamp = t\<rparr>])\<rparr>, s2))
         else (m1, s))"

fun processMentions ::
  "manager_state \<Rightarrow> string \<Rightarrow> (nat \<Rightarrow> env) \<Rightarrow> nat \<Rightarrow> tweet list \<Rightarrow> (js_error + unit) \<times> manager_state"
where
  "processMentions s agentId envs i [] = (Inr (), s)"
| "processMentions s agentId envs i (m # ms) =
     (let (m', s1) = mentionWithContext s agentId m (envs i)
      in case processAgentReaction s1 agentId m' (envs i) of
           (Inl err, s2) \<Rightarrow> (Inl err, s2)
         | (Inr r, s2) \<Rightarrow> processMentions s2 agentId envs (i + 1) ms)"

definition keepMention :: "manager_state \<Rightarrow> string option \<Rightarrow> tweet \<Rightarrow> bool" where
  "keepMention s username m \<longleftrightarrow>
     \<not> (truthy (authorUsername m) \<and> truthy username \<and>
        toLowerCase (the (authorUsername m)) = the username) \<and>
     tweet_id m \<notin> processedTweetIds s"

text \<open>
  One tick of the interval. Besides the new state and closure variables the model reports
  how the tick ended: skipped for the cooldown, in \<open>_handleApiError\<close> with the error
  caught, or completed.
\<close>

datatype tick_outcome = Skipped | Failed js_error | Completed

definition pollTick ::
  "manager_state \<Rightarrow> poller \<Rightarrow> string \<Rightarrow> poll_env \<Rightarrow> tick_outcome \<times> manager_state \<times> poller" where
  "pollTick s p agentId pe =
     (if inCooldown s agentId (p_now pe) then (Skipped, s, p)
      else
        let haveName = truthy (agentUsername p);
            s1 = (if haveName then s else log_call (CallMe agentId) s)
        in case (if haveName then Inr (the (agentUsername p))
                 else map_sum id toLowerCase (p_me pe)) of
             Inl err \<Rightarrow> (Failed err, handleApiError s1 agentId err (p_errNow pe), p)
           | Inr username \<Rightarrow>
               let p1 = p\<lparr>agentUsername := Some username\<rparr>;
                   s2 = log_call (CallGetAgentMentions agentId (lastMentionId p1)) s1
               in case p_mentions pe of
                    Inl err \<Rightarrow> (Failed err, handleApiError s2 agentId err (p_errNow pe), p1)
                  | Inr mentions \<Rightarrow>
                      let s3 = s2\<lparr>apiErrorCounts := (apiErrorCounts s2)(agentId \<mapsto> 0)\<rparr>
                      in (case mentions of
                            [] \<Rightarrow> (Completed, s3, p1)
                          | m0 # rest \<Rightarrow>
                              let p2 = p1\<lparr>lastMentionId := Some (tweet_id m0)\<rparr>;
                                  filteredMentions = filter (keepMention s3 (agentUsername p2)) mentions
                              in case processMentions s3 agentId (p_env pe) 0 filteredMentions of
                                   (Inl err, s4) \<Rightarrow>
                                     (Failed err, handleApiError s4 agentId err (p_errNow pe), p2)
                                 | (Inr u, s4) \<Rightarrow>
                                     (Completed, log_call SaveProcessedTweets s4, p2)))"

section \<open>Event engine\<close>

datatype priority = Low | Normal | High | Critical

record event =
  ev_id :: string
  ev_type :: string
  ev_data :: string
  ev_timestamp :: int
  targetAgentIds :: "string list"
  ev_priority :: priority

record scheduled_event =
  sch_event :: event
  scheduledTime :: int

text \<open>
  \<open>processEvents\<close> is an \<open>async\<close> function: it runs until its \<open>await
  this.dispatchEvent(event)\<close>, where \<open>dispatchEvent\<close> has already handed the event to the
  listeners, and continues when that promise settles. \<open>inFlight\<close> is the event the
  suspended loop is waiting on; \<open>dispatched\<close> lists the calls of \<open>dispatchEvent\<close> in order.
\<close>

record engine =
  eventQueue :: "event list"
  scheduledEvents :: "scheduled_event list"
  isProcessing :: bool
  eventHistory :: "(event \<times> int) list"
  inFlight :: "event option"
  dispatched :: "event list"

fun priorityValues :: "priority \<Rightarrow> int" where
  "priorityValues Critical = 3"
| "priorityValues High = 2"
| "priorityValues Normal = 1"
| "priorityValues Low = 0"

text \<open>
  \<open>eventQueue.sort((a, b) => priorityValues[b.priority] - priorityValues[a.priority])\<close>:
  the stable sort by descending priority value.
\<close>

definition sortEventQueue :: "event list \<Rightarrow> event list" where
  "sortEventQueue q = sort_key (\<lambda>ev. - priorityValues (ev_priority ev)) q"

definition pushEvent :: "engine \<Rightarrow> event \<Rightarrow> engine" where
  "pushEvent en ev = en\<lparr>eventQueue := sortEventQueue (eventQueue en @ [ev])\<rparr>"

text \<open>
  \<open>checkScheduledEvents\<close> is only called by \<open>processEvents\<close>, after \<open>isProcessing\<close> is
  set; its calls of \<open>queueEvent\<close> therefore push and sort and start nothing.
\<close>

definition checkScheduledEvents :: "engine \<Rightarrow> int \<Rightarrow> engine" where
  "checkScheduledEvents en now =
     (let dueEvents = map sch_event (filter (\<lambda>se. scheduledTime se \<le> now) (scheduledEvents en));
          futureEvents = filter (\<lambda>se. \<not> scheduledTime se \<le> now) (scheduledEvents en)
      in foldl pushEvent (en\<lparr>scheduledEvents := futureEvents\<rparr>) dueEvents)"











section \<open>Observations on traces and sequences of deliveries\<close>

definition newCalls :: "manager_state \<Rightarrow> manager_state \<Rightarrow> trace_event list" where
  "newCalls s s' = drop (length (trace s)) (trace s')"

definition reactionCalls :: "trace_event list \<Rightarrow> trace_event list" where
  "reactionCalls tr = filter isReactionCall tr"

text \<open>Deliveries of items to \<open>processAgentReaction\<close>, one after the other.\<close>

fun deliverAll :: "manager_state \<Rightarrow> (string \<times> tweet \<times> env) list \<Rightarrow> manager_state" where
  "deliverAll s [] = s"
| "deliverAll s ((agentId, tw, e) # rest) =
     deliverAll (snd (processAgentReaction s agentId tw e)) rest"

text \<open>Errors handed to \<open>_handleApiError\<close> one after the other, each with the clock it reads.\<close>

fun consecutiveErrors :: "manager_state \<Rightarrow> string \<Rightarrow> (js_error \<times> int) list \<Rightarrow> manager_state" where
  "consecutiveErrors s agentId [] = s"
| "consecutiveErrors s agentId ((err, now) # rest) =
     consecutiveErrors (handleApiError s agentId err now) agentId rest"

section \<open>Concrete inputs\<close>

definition exampleAgent :: agent where
  "exampleAgent =
     \<lparr>agent_name = ''Bot One'',
      postFrequency = \<lparr>minHoursBetweenPosts = 3, maxHoursBetweenPosts = 12,
                       peakPostingHours = [9]\<rparr>,
      interactionPatterns = \<lparr>replyProbability = 1 / 2, quoteTweetProbability = 3 / 10,
                             likeProbability = 7 / 10\<rparr>,
      lastPostTime = None\<rparr>"

definition exampleState :: manager_state where
  "exampleState =
     \<lparr>agents = [''bot1'' \<mapsto> exampleAgent], nextPostTimes = Map.empty,
      processedTweetIds = {}, apiErrorCounts = Map.empty, apiCooldowns = Map.empty,
      relationships = (\<lambda>a. Map.empty), tweetHistory = (\<lambda>a. []), maxTweetHistory = 50,
      trace = []\<rparr>"

definition notFound :: js_error where
  "notFound = \<lparr>err_message = ''Not Found'', err_code = Some 404, err_errors = []\<rparr>"

definition exampleTweet :: tweet where
  "exampleTweet =
     \<lparr>tweet_id = ''t1'', content = ''nice weather today'', createdAt = Some 1000,
      authorId = ''user7'', authorUsername = Some ''User7'', replyToId = None,
      isDirectMention = False, hasOriginalTweet = False, conversationHistory = None\<rparr>"

definition zeroDraws :: sched_draws where
  "zeroDraws = \<lparr>rBase = 0, rScale = 0, rCoin = 0, rExtra = 0\<rparr>"

definition exampleEnv :: env where
  "exampleEnv =
     \<lparr>e_now = 5000, e_hour = 14, e_me = Inr ''Bot1'', e_getTweet = (\<lambda>i. Inl notFound),
      e_reaction = Inr ''quote'', e_rQuote = 1 / 10, e_rReply = 0, e_rLike = 0,
      e_content = Inr ''hello world'', e_post = Inr ''p1'', e_like = Inr (),
      e_relUpdate = Inl notFound,
      e_sched = zeroDraws\<rparr>"

text \<open>
  An item that the agent wrote itself, recognised by its author's username, and the state
  after \<open>exampleTweet\<close> has been delivered once.
\<close>

definition selfTweet :: tweet where
  "selfTweet =
     exampleTweet\<lparr>tweet_id := ''t2'', authorId := ''1234567'', authorUsername := Some ''BOT1'',
                  isDirectMention := True\<rparr>"

definition afterFirstDelivery :: manager_state where
  "afterFirstDelivery = snd (processAgentReaction exampleState ''bot1'' exampleTweet exampleEnv)"

text \<open>
  A reply chain with a cycle (\<open>A\<close> replies to \<open>B\<close>, \<open>B\<close> replies to \<open>A\<close>) and a mention
  that replies to \<open>A\<close>.
\<close>

definition cyclicGetTweet :: "string \<Rightarrow> js_error + tweet" where
  "cyclicGetTweet i =
     (if i = ''A'' then
        Inr (exampleTweet\<lparr>tweet_id := ''A'', content := ''from A'', createdAt := Some 200,
                          replyToId := Some ''B''\<rparr>)
      else if i = ''B'' then
        Inr (exampleTweet\<lparr>tweet_id := ''B'', content := ''from B'', createdAt := Some 100,
                          authorId := ''bot1'', replyToId := Some ''A''\<rparr>)
      else Inl notFound)"

definition replyTweet :: tweet where
  "replyTweet = exampleTweet\<lparr>tweet_id := ''t3'', replyToId := Some ''A'', isDirectMention := True\<rparr>"

definition cyclicEnv :: env where
  "cyclicEnv = exampleEnv\<lparr>e_getTweet := cyclicGetTweet\<rparr>"





text \<open>
  Changes that lower familiarity and trust, a state in which the agent is cooling down until
  time 900000, draws that are all zero, a state in which the agent has posted at time
  1000, options of a scheduled post, plain and rate-limit errors, a poll that
  finds no new mention at time 5000 and one at time 1000000, and three errors in a row.
\<close>

definition loweringChanges :: rel_changes where
  "loweringChanges =
     \<lparr>ch_sentiment = None, ch_familiarity = Some (- 1 / 2), ch_trust = Some (- 1 / 5),
      ch_recentInteractions = None, ch_notes = None, ch_sharedExperiences = None\<rparr>"

definition coolingState :: manager_state where
  "coolingState = exampleState\<lparr>apiCooldowns := [''bot1'' \<mapsto> 900000]\<rparr>"

definition justPostedState :: manager_state where
  "justPostedState =
     exampleState\<lparr>agents := [''bot1'' \<mapsto> exampleAgent\<lparr>lastPostTime := Some 1000\<rparr>]\<rparr>"

definition scheduledPost :: post_options where
  "scheduledPost = \<lparr>task = TaskNone, replyTo = None, quoteTweet = None,
                    avoidContextQuestions = False, ignoreTimeConstraint = False\<rparr>"

definition plainError :: js_error where
  "plainError = \<lparr>err_message = ''socket hang up'', err_code = None, err_errors = []\<rparr>"

definition rateLimitError :: js_error where
  "rateLimitError = \<lparr>err_message = ''Too Many Requests'', err_code = Some 429, err_errors = []\<rparr>"

definition code88Error :: js_error where
  "code88Error = \<lparr>err_message = ''Rate limit exceeded'', err_code = None, err_errors = [88]\<rparr>"

definition examplePoller :: poller where
  "examplePoller = \<lparr>lastMentionId = None, agentUsername = None\<rparr>"

definition quietPoll :: poll_env where
  "quietPoll = \<lparr>p_now = 5000, p_errNow = 5001, p_me = Inr ''Bot1'', p_mentions = Inr [],
                p_env = (\<lambda>i. exampleEnv)\<rparr>"

definition latePoll :: poll_env where
  "latePoll = quietPoll\<lparr>p_now := 1000000, p_errNow := 1000001\<rparr>"

definition threeErrors :: "(js_error \<times> int) list" where
  "threeErrors = [(plainError, 1000), (plainError, 2000), (plainError, 3000)]"

definition fourErrors :: "(js_error \<times> int) list" where
  "fourErrors = threeErrors @ [(code88Error, 4000)]"

text \<open>
  The answers of \<open>exampleEnv\<close> with a username lookup that throws, and a history of the
  engine in which a normal event is enqueued and dispatched before a critical one arrives.
\<close>

definition failedLookupEnv :: env where
  "failedLookupEnv = exampleEnv\<lparr>e_me := Inl notFound\<rparr>"



section \<open>Properties of the post scheduler\<close>

text \<open>The upper bound holds for every agent, hour and draws: the last step is a minimum.\<close>

lemma interval_le_maxMs: "of_int (getNextPostInterval pf h d) \<le> maxMs pf"
  unfolding getNextPostInterval_def Let_def
  by (meson min.cobounded2 of_int_floor_le order_trans)

text \<open>
  Claim C1 (jitter bounds) says that the interval \<open>t\<close> of \<open>getNextPostInterval\<close> always
  satisfies \<open>minMs \<le> t \<le> maxMs\<close>. The source clamps the interval from above only: in a
  peak hour it scales the base interval by \<open>0.7\<close> to \<open>0.9\<close> and never raises the result
  to \<open>minMs\<close>. With 3 and 12 hours, hour 9 a peak hour and all draws 0 it computes
  \<open>10800000 * 0.7 = 7559999.999999999\<close> and returns 7559999, below \<open>minMs = 10800000\<close>.
  \<open>createAgentPost\<close> holds the same minimum: a post that comes due 7559999 ms after the
  last one is refused as too soon, with no call to a collaborator.
\<close>

theorem interval_below_min_in_peak_hour:
  "isPeakHour (postFrequency exampleAgent) 9 \<and>
   minMs (postFrequency exampleAgent) = 10800000 \<and>
   maxMs (postFrequency exampleAgent) = 43200000 \<and>
   getNextPostInterval (postFrequency exampleAgent) 9 zeroDraws = 7559999 \<and>
   \<not> minMs (postFrequency exampleAgent)
       \<le> of_int (getNextPostInterval (postFrequency exampleAgent) 9 zeroDraws) \<and>
   createAgentPost justPostedState ''bot1'' scheduledPost (exampleEnv\<lparr>e_now := 1000 + 7559999\<rparr>)
     = (Inr None, justPostedState)"
proof -
  have 1: "isPeakHour (postFrequency exampleAgent) 9" by code_simp
  have 2: "minMs (postFrequency exampleAgent) = 10800000" by code_simp
  have 3: "maxMs (postFrequency exampleAgent) = 43200000" by code_simp
  have 4: "getNextPostInterval (postFrequency exampleAgent) 9 zeroDraws = 7559999" by code_simp
  have 5: "\<not> minMs (postFrequency exampleAgent)
       \<le> of_int (getNextPostInterval (postFrequency exampleAgent) 9 zeroDraws)"
    unfolding 2 4 by simp
  have a: "agents justPostedState ''bot1'' = Some (exampleAgent\<lparr>lastPostTime := Some 1000\<rparr>)"
    by (simp add: justPostedState_def exampleState_def)
  have m: "minMs (postFrequency (exampleAgent\<lparr>lastPostTime := Some 1000\<rparr>)) = 10800000"
    using 2 by simp
  have t: "tooSoon (exampleAgent\<lparr>lastPostTime := Some 1000\<rparr>) (1000 + 7559999)"
    unfolding tooSoon_def m by simp
  have 6: "createAgentPost justPostedState ''bot1'' scheduledPost
             (exampleEnv\<lparr>e_now := 1000 + 7559999\<rparr>) = (Inr None, justPostedState)"
    using a t by (simp add: createAgentPost_def getAgent_def scheduledPost_def)
  show ?thesis using 1 2 3 4 5 6 by blast
qed

section \<open>Frame and trace lemmas for the agent manager\<close>

lemma log_call_fields [simp]:
  "trace (log_call ev s) = trace s @ [ev]"
  "processedTweetIds (log_call ev s) = processedTweetIds s"
  "agents (log_call ev s) = agents s"
  "nextPostTimes (log_call ev s) = nextPostTimes s"
  "apiErrorCounts (log_call ev s) = apiErrorCounts s"
  "apiCooldowns (log_call ev s) = apiCooldowns s"
  "relationships (log_call ev s) = relationships s"
  "tweetHistory (log_call ev s) = tweetHistory s"
  "maxTweetHistory (log_call ev s) = maxTweetHistory s"
  by (simp_all add: log_call_def)

lemma getAgent_log_call [simp]: "getAgent (log_call ev s) a = getAgent s a"
  by (simp add: getAgent_def)

lemma fetch_thread_shape:
  "\<exists>X N. snd (fetchConversationThread g t (h, s) a d m) = s\<lparr>trace := trace s @ X\<rparr> \<and>
         fst (fetchConversationThread g t (h, s) a d m) = h @ N \<and>
         length N \<le> length X \<and> length X \<le> m - d \<and> reactionCalls X = []"
proof (induction g t "(h, s)" a d m arbitrary: h s rule: fetchConversationThread.induct)
  case (1 getTweet tweetId hist s agentId depth maxDepth)
  show ?case
  proof (cases "depth \<ge> maxDepth")
    case True
    then show ?thesis by (simp add: reactionCalls_def)
  next
    case False
    note nd = this
    show ?thesis
    proof (cases "getTweet tweetId")
      case (Inl err)
      have "snd (fetchConversationThread getTweet tweetId (hist, s) agentId depth maxDepth) = s\<lparr>trace := trace s @ [CallGetTweet tweetId]\<rparr>"
        using nd Inl by (simp add: log_call_def)
      moreover have "fst (fetchConversationThread getTweet tweetId (hist, s) agentId depth maxDepth) = hist @ []"
        using nd Inl by simp
      ultimately show ?thesis using nd
        by (intro exI[of _ "[CallGetTweet tweetId]"] exI[of _ "[]"]) (simp add: reactionCalls_def)
    next
      case (Inr tw)
      show ?thesis
      proof (cases "createdAt tw")
        case None
        have "snd (fetchConversationThread getTweet tweetId (hist, s) agentId depth maxDepth) = s\<lparr>trace := trace s @ [CallGetTweet tweetId]\<rparr>"
          using nd Inr None by (simp add: log_call_def)
        moreover have "fst (fetchConversationThread getTweet tweetId (hist, s) agentId depth maxDepth) = hist @ []"
          using nd Inr None by simp
        ultimately show ?thesis using nd
          by (intro exI[of _ "[CallGetTweet tweetId]"] exI[of _ "[]"]) (simp add: reactionCalls_def)
      next
        case (Some ts)
        let ?entry = "\<lparr>role = (if authorId tw = agentId then RoleAgent else RoleUser),
                                         entry_content = content tw, timestamp = ts\<rparr>"
        show ?thesis
        proof (cases "truthy (replyToId tw)")
          case False
          have "snd (fetchConversationThread getTweet tweetId (hist, s) agentId depth maxDepth) = s\<lparr>trace := trace s @ [CallGetTweet tweetId]\<rparr>"
            using nd Inr Some False by (simp add: log_call_def)
          moreover have "fst (fetchConversationThread getTweet tweetId (hist, s) agentId depth maxDepth) = hist @ [?entry]"
            using nd Inr Some False by simp
          ultimately show ?thesis using nd
            by (intro exI[of _ "[CallGetTweet tweetId]"] exI[of _ "[?entry]"]) (simp add: reactionCalls_def)
        next
          case True
          let ?s1 = "log_call (CallGetTweet tweetId) s"
          let ?h1 = "hist @ [?entry]"
          let ?rec = "fetchConversationThread getTweet (the (replyToId tw)) (?h1, ?s1) agentId (depth + 1) maxDepth"
          have eq: "fetchConversationThread getTweet tweetId (hist, s) agentId depth maxDepth = ?rec"
            using nd Inr Some True by (simp add: Let_def)
          from "1.hyps"[OF nd refl Inr Some refl True]
          obtain X N where
            X: "snd ?rec = ?s1\<lparr>trace := trace ?s1 @ X\<rparr>" and
            N: "fst ?rec = ?h1 @ N" and
            b: "length N \<le> length X" "length X \<le> maxDepth - (depth + 1)" "reactionCalls X = []"
            by blast
          have "snd ?rec = s\<lparr>trace := trace s @ (CallGetTweet tweetId # X)\<rparr>"
            using X by (simp add: log_call_def)
          moreover have "fst ?rec = hist @ (?entry # N)" using N by simp
          ultimately show ?thesis using b nd unfolding eq
            by (intro exI[of _ "CallGetTweet tweetId # X"] exI[of _ "?entry # N"])
               (simp add: reactionCalls_def)
        qed
      qed
    qed
  qed
qed

declare fetchConversationThread.simps [simp del]

lemma reactionCalls_simps [simp]:
  "reactionCalls [] = []"
  "reactionCalls (xs @ ys) = reactionCalls xs @ reactionCalls ys"
  "reactionCalls (CallMe a # xs) = reactionCalls xs"
  "reactionCalls (DedupInsert i # xs) = reactionCalls xs"
  "reactionCalls (CallGetTweet i # xs) = reactionCalls xs"
  "reactionCalls (CallGetAgentMentions a si # xs) = reactionCalls xs"
  "reactionCalls (CallGenerateReaction a i # xs) = reactionCalls xs"
  "reactionCalls (CallGenerateContent a i # xs) = reactionCalls xs"
  "reactionCalls (CallGenerateTweet a # xs) = reactionCalls xs"
  "reactionCalls (CallPostTweet a c r # xs) = CallPostTweet a c r # reactionCalls xs"
  "reactionCalls (CallLikeTweet a i # xs) = CallLikeTweet a i # reactionCalls xs"
  "reactionCalls (SaveProcessedTweets # xs) = reactionCalls xs"
  by (simp_all add: reactionCalls_def)

lemma createAgentPost_frame:
  "processedTweetIds (snd (createAgentPost s a opts e)) = processedTweetIds s"
  "apiErrorCounts (snd (createAgentPost s a opts e)) = apiErrorCounts s"
  "apiCooldowns (snd (createAgentPost s a opts e)) = apiCooldowns s"
  "relationships (snd (createAgentPost s a opts e)) = relationships s"
  by (auto simp: createAgentPost_def scheduleNextPost_def addTweetToAgentMemory_def getAgent_def
      Let_def split: sum.splits option.splits)

lemma createAgentPost_trace:
  "\<exists>X. trace (snd (createAgentPost s a opts e)) = trace s @ X \<and> length (reactionCalls X) \<le> 1"
  by (auto simp: createAgentPost_def scheduleNextPost_def addTweetToAgentMemory_def getAgent_def
      Let_def split: sum.splits option.splits)

lemma posted_snd [simp]: "snd (posted r) = snd r"
  by (simp add: posted_def)

lemma mentionContext_shape:
  "\<exists>X. snd (snd (mentionContext s a tw e)) = s\<lparr>trace := trace s @ X\<rparr> \<and> reactionCalls X = []"
proof (cases "truthy (replyToId tw)")
  case False
  then show ?thesis by (intro exI[of _ "[]"]) (simp add: mentionContext_def)
next
  case True
  let ?rid = "the (replyToId tw)"
  let ?s1 = "log_call (CallGetTweet ?rid) s"
  show ?thesis
  proof (cases "e_getTweet e ?rid")
    case (Inl err)
    then show ?thesis using True
      by (intro exI[of _ "[CallGetTweet ?rid]"]) (simp add: mentionContext_def log_call_def)
  next
    case (Inr orig)
    show ?thesis
    proof (cases "conversationHistory tw")
      case (Some h)
      then show ?thesis using True Inr
        by (intro exI[of _ "[CallGetTweet ?rid]"]) (simp add: mentionContext_def log_call_def)
    next
      case None
      obtain X N where
        X: "snd (fetchConversationThread (e_getTweet e) ?rid ([], ?s1) a 0 5) = ?s1\<lparr>trace := trace ?s1 @ X\<rparr>"
        and r: "reactionCalls X = []"
        using fetch_thread_shape[of "e_getTweet e" ?rid "[]" ?s1 a 0 5] by blast
      have "snd (snd (mentionContext s a tw e)) = s\<lparr>trace := trace s @ (CallGetTweet ?rid # X)\<rparr>"
        using True Inr None X
        by (simp add: mentionContext_def Let_def log_call_def split_beta)
      then show ?thesis using r by (intro exI[of _ "CallGetTweet ?rid # X"]) simp
    qed
  qed
qed

lemma trace_update_fields [simp]:
  "processedTweetIds (s\<lparr>trace := t\<rparr>) = processedTweetIds s"
  "apiErrorCounts (s\<lparr>trace := t\<rparr>) = apiErrorCounts s"
  "apiCooldowns (s\<lparr>trace := t\<rparr>) = apiCooldowns s"
  "relationships (s\<lparr>trace := t\<rparr>) = relationships s"
  by simp_all

lemma mentionPath_frame:
  "processedTweetIds (snd (mentionPath s a tw e)) = processedTweetIds s"
  "apiErrorCounts (snd (mentionPath s a tw e)) = apiErrorCounts s"
  "apiCooldowns (snd (mentionPath s a tw e)) = apiCooldowns s"
  "relationships (snd (mentionPath s a tw e)) = relationships s"
proof -
  obtain b tw' s1 where m: "mentionContext s a tw e = (b, tw', s1)"
    by (cases "mentionContext s a tw e") auto
  obtain X where "s1 = s\<lparr>trace := trace s @ X\<rparr>"
    using mentionContext_shape[of s a tw e] m by auto
  then have f: "processedTweetIds s1 = processedTweetIds s" "apiErrorCounts s1 = apiErrorCounts s"
    "apiCooldowns s1 = apiCooldowns s" "relationships s1 = relationships s"
    by simp_all
  show "processedTweetIds (snd (mentionPath s a tw e)) = processedTweetIds s"
    using m f by (simp add: mentionPath_def createAgentPost_frame)
  show "apiErrorCounts (snd (mentionPath s a tw e)) = apiErrorCounts s"
    using m f by (simp add: mentionPath_def createAgentPost_frame)
  show "apiCooldowns (snd (mentionPath s a tw e)) = apiCooldowns s"
    using m f by (simp add: mentionPath_def createAgentPost_frame)
  show "relationships (snd (mentionPath s a tw e)) = relationships s"
    using m f by (simp add: mentionPath_def createAgentPost_frame)
qed

lemma mentionPath_trace:
  "\<exists>X. trace (snd (mentionPath s a tw e)) = trace s @ X \<and> length (reactionCalls X) \<le> 1"
proof -
  obtain b tw' s1 where m: "mentionContext s a tw e = (b, tw', s1)"
    by (cases "mentionContext s a tw e") auto
  obtain X where X: "s1 = s\<lparr>trace := trace s @ X\<rparr>" "reactionCalls X = []"
    using mentionContext_shape[of s a tw e] m by auto
  have "\<exists>opts. snd (mentionPath s a tw e) = snd (createAgentPost s1 a opts e)"
    using m by (cases "\<not> b \<and> asksAboutContext tw'") (auto simp: mentionPath_def)
  then obtain opts where o: "snd (mentionPath s a tw e) = snd (createAgentPost s1 a opts e)"
    by blast
  obtain Y where Y: "trace (snd (createAgentPost s1 a opts e)) = trace s1 @ Y"
    "length (reactionCalls Y) \<le> 1"
    using createAgentPost_trace[of s1 a opts e] by blast
  have "trace (snd (mentionPath s a tw e)) = trace s @ (X @ Y)"
    using o Y(1) X(1) by simp
  then show ?thesis using X(2) Y(2) by (intro exI[of _ "X @ Y"]) simp
qed

lemma replyContext_shape:
  "\<exists>X. snd (replyContext s a tw e) = s\<lparr>trace := trace s @ X\<rparr> \<and> reactionCalls X = []"
proof (cases "\<not> hasOriginalTweet tw \<and> tweet_id tw \<noteq> [] \<and> truthy (replyToId tw)")
  case False
  then show ?thesis
    by (intro exI[of _ "[]"]) (auto simp: replyContext_def Let_def)
next
  case True
  let ?h0 = "[currentEntry tw (e_now e)]"
  obtain X where
    X: "snd (fetchConversationThread (e_getTweet e) (the (replyToId tw)) (?h0, s) a 0 5)
          = s\<lparr>trace := trace s @ X\<rparr>" and r: "reactionCalls X = []"
    using fetch_thread_shape[of "e_getTweet e" "the (replyToId tw)" ?h0 s a 0 5] by blast
  have "snd (replyContext s a tw e) = s\<lparr>trace := trace s @ X\<rparr>"
    using True X by (simp add: replyContext_def Let_def split_beta)
  then show ?thesis using r by blast
qed

lemma updateAgentRelationship_frame:
  "trace (updateAgentRelationship s a t d e) = trace s"
  "processedTweetIds (updateAgentRelationship s a t d e) = processedTweetIds s"
  "apiErrorCounts (updateAgentRelationship s a t d e) = apiErrorCounts s"
  "apiCooldowns (updateAgentRelationship s a t d e) = apiCooldowns s"
  by (auto simp: updateAgentRelationship_def Let_def split: sum.splits)

lemma reactionPath_frame:
  "processedTweetIds (snd (reactionPath s a ag tw e)) = processedTweetIds s"
  "apiErrorCounts (snd (reactionPath s a ag tw e)) = apiErrorCounts s"
  "apiCooldowns (snd (reactionPath s a ag tw e)) = apiCooldowns s"
proof -
  obtain X where X: "snd (replyContext (log_call (CallGenerateReaction a (tweet_id tw)) s) a tw e)
      = (log_call (CallGenerateReaction a (tweet_id tw)) s)\<lparr>trace := trace (log_call (CallGenerateReaction a (tweet_id tw)) s) @ X\<rparr>"
    using replyContext_shape by blast
  show "processedTweetIds (snd (reactionPath s a ag tw e)) = processedTweetIds s"
    using X by (auto simp: reactionPath_def Let_def split_beta createAgentPost_frame
        updateAgentRelationship_frame split: sum.splits)
  show "apiErrorCounts (snd (reactionPath s a ag tw e)) = apiErrorCounts s"
    using X by (auto simp: reactionPath_def Let_def split_beta createAgentPost_frame
        updateAgentRelationship_frame split: sum.splits)
  show "apiCooldowns (snd (reactionPath s a ag tw e)) = apiCooldowns s"
    using X by (auto simp: reactionPath_def Let_def split_beta createAgentPost_frame
        updateAgentRelationship_frame split: sum.splits)
qed

lemma reactionPath_trace:
  "\<exists>X. trace (snd (reactionPath s a ag tw e)) = trace s @ X \<and> length (reactionCalls X) \<le> 1"
proof -
  let ?s1 = "log_call (CallGenerateReaction a (tweet_id tw)) s"
  let ?g = "CallGenerateReaction a (tweet_id tw)"
  obtain X where X: "snd (replyContext ?s1 a tw e) = ?s1\<lparr>trace := trace ?s1 @ X\<rparr>"
    and rX: "reactionCalls X = []"
    using replyContext_shape by blast
  have cap: "\<And>s0 opts. \<exists>Y. trace (snd (createAgentPost s0 a opts e)) = trace s0 @ Y \<and> length (reactionCalls Y) \<le> 1"
    using createAgentPost_trace by blast
  have "snd (reactionPath s a ag tw e) = ?s1
      \<or> (\<exists>opts. snd (reactionPath s a ag tw e) = snd (createAgentPost (snd (replyContext ?s1 a tw e)) a opts e))
      \<or> (\<exists>opts. snd (reactionPath s a ag tw e) = snd (createAgentPost ?s1 a opts e))
      \<or> snd (reactionPath s a ag tw e) = log_call (CallLikeTweet a (tweet_id tw)) ?s1
      \<or> snd (reactionPath s a ag tw e) = updateAgentRelationship (log_call (CallLikeTweet a (tweet_id tw)) ?s1) a (authorId tw) (likeDescription tw) e"
    by (auto simp: reactionPath_def Let_def split_beta split: sum.splits)
  then consider
    (none) "snd (reactionPath s a ag tw e) = ?s1"
  | (reply) opts where "snd (reactionPath s a ag tw e) = snd (createAgentPost (snd (replyContext ?s1 a tw e)) a opts e)"
  | (quote) opts where "snd (reactionPath s a ag tw e) = snd (createAgentPost ?s1 a opts e)"
  | (likeErr) "snd (reactionPath s a ag tw e) = log_call (CallLikeTweet a (tweet_id tw)) ?s1"
  | (like) "snd (reactionPath s a ag tw e) = updateAgentRelationship (log_call (CallLikeTweet a (tweet_id tw)) ?s1) a (authorId tw) (likeDescription tw) e"
    by blast
  then show ?thesis
  proof cases
    case none
    then show ?thesis by (intro exI[of _ "[?g]"]) simp
  next
    case (reply opts)
    obtain Y where Y: "trace (snd (createAgentPost (snd (replyContext ?s1 a tw e)) a opts e))
        = trace (snd (replyContext ?s1 a tw e)) @ Y" "length (reactionCalls Y) \<le> 1"
      using cap by blast
    have "trace (snd (reactionPath s a ag tw e)) = trace s @ (?g # X @ Y)"
      using reply Y(1) X by simp
    then show ?thesis using rX Y(2) by (intro exI[of _ "?g # X @ Y"]) simp
  next
    case (quote opts)
    obtain Y where Y: "trace (snd (createAgentPost ?s1 a opts e)) = trace ?s1 @ Y"
      "length (reactionCalls Y) \<le> 1"
      using cap by blast
    have "trace (snd (reactionPath s a ag tw e)) = trace s @ (?g # Y)"
      using quote Y(1) by simp
    then show ?thesis using Y(2) by (intro exI[of _ "?g # Y"]) simp
  next
    case likeErr
    then show ?thesis by (intro exI[of _ "[?g, CallLikeTweet a (tweet_id tw)]"]) simp
  next
    case like
    then show ?thesis
      by (intro exI[of _ "[?g, CallLikeTweet a (tweet_id tw)]"])
         (simp add: updateAgentRelationship_frame)
  qed
qed

text \<open>The three ways \<open>processAgentReaction\<close> can go for a registered agent.\<close>

lemma processAgentReaction_unregistered:
  "agents s a = None \<Longrightarrow> snd (processAgentReaction s a tw e) = s"
  by (simp add: processAgentReaction_def getAgent_def)

lemma processAgentReaction_dropped:
  assumes "agents s a = Some ag"
    and "isSelfMention a (fetchedUsername e) tw \<or> tweet_id tw \<in> processedTweetIds s"
  shows "processAgentReaction s a tw e = (Inr None, log_call (CallMe a) s)"
  using assms by (auto simp: processAgentReaction_def getAgent_def Let_def)

lemma processAgentReaction_accepted:
  assumes "agents s a = Some ag"
    and "\<not> isSelfMention a (fetchedUsername e) tw" and "tweet_id tw \<notin> processedTweetIds s"
  shows "processAgentReaction s a tw e =
           (let s1 = log_call (DedupInsert (tweet_id tw))
                       ((log_call (CallMe a) s)
                          \<lparr>processedTweetIds := insert (tweet_id tw) (processedTweetIds s)\<rparr>)
            in if isMention ag a tw then mentionPath s1 a tw e else reactionPath s1 a ag tw e)"
  using assms by (simp add: processAgentReaction_def getAgent_def Let_def)

lemma processAgentReaction_processed:
  "processedTweetIds (snd (processAgentReaction s a tw e)) = processedTweetIds s \<or>
   processedTweetIds (snd (processAgentReaction s a tw e)) = insert (tweet_id tw) (processedTweetIds s)"
proof (cases "agents s a")
  case None
  then show ?thesis by (simp add: processAgentReaction_unregistered)
next
  case (Some ag)
  show ?thesis
  proof (cases "isSelfMention a (fetchedUsername e) tw \<or> tweet_id tw \<in> processedTweetIds s")
    case True
    then show ?thesis using processAgentReaction_dropped[OF Some True] by simp
  next
    case False
    then show ?thesis using processAgentReaction_accepted[OF Some, of e tw]
      by (simp add: Let_def mentionPath_frame reactionPath_frame)
  qed
qed

lemma processAgentReaction_processed_mono:
  "processedTweetIds s \<subseteq> processedTweetIds (snd (processAgentReaction s a tw e))"
  using processAgentReaction_processed[of s a tw e] by auto

lemma processAgentReaction_frame:
  "apiErrorCounts (snd (processAgentReaction s a tw e)) = apiErrorCounts s"
  "apiCooldowns (snd (processAgentReaction s a tw e)) = apiCooldowns s"
proof -
  show "apiErrorCounts (snd (processAgentReaction s a tw e)) = apiErrorCounts s"
  proof (cases "agents s a")
    case None
    then show ?thesis by (simp add: processAgentReaction_unregistered)
  next
    case (Some ag)
    show ?thesis
    proof (cases "isSelfMention a (fetchedUsername e) tw \<or> tweet_id tw \<in> processedTweetIds s")
      case True
      then show ?thesis using processAgentReaction_dropped[OF Some True] by simp
    next
      case False
      then show ?thesis using processAgentReaction_accepted[OF Some, of e tw]
        by (simp add: Let_def mentionPath_frame reactionPath_frame)
    qed
  qed
  show "apiCooldowns (snd (processAgentReaction s a tw e)) = apiCooldowns s"
  proof (cases "agents s a")
    case None
    then show ?thesis by (simp add: processAgentReaction_unregistered)
  next
    case (Some ag)
    show ?thesis
    proof (cases "isSelfMention a (fetchedUsername e) tw \<or> tweet_id tw \<in> processedTweetIds s")
      case True
      then show ?thesis using processAgentReaction_dropped[OF Some True] by simp
    next
      case False
      then show ?thesis using processAgentReaction_accepted[OF Some, of e tw]
        by (simp add: Let_def mentionPath_frame reactionPath_frame)
    qed
  qed
qed

text \<open>
  The calls of one invocation: either none of them is a reaction, or the item was not in
  the store, the trace starts with the username lookup and the insertion, and at most one
  reaction follows.
\<close>

lemma processAgentReaction_trace:
  "\<exists>X. trace (snd (processAgentReaction s a tw e)) = trace s @ X \<and>
       (reactionCalls X = [] \<or>
        (tweet_id tw \<notin> processedTweetIds s \<and>
         tweet_id tw \<in> processedTweetIds (snd (processAgentReaction s a tw e)) \<and>
         (\<exists>Y. X = CallMe a # DedupInsert (tweet_id tw) # Y \<and> length (reactionCalls Y) \<le> 1)))"
proof (cases "agents s a")
  case None
  then show ?thesis by (intro exI[of _ "[]"]) (simp add: processAgentReaction_unregistered)
next
  case (Some ag)
  show ?thesis
  proof (cases "isSelfMention a (fetchedUsername e) tw \<or> tweet_id tw \<in> processedTweetIds s")
    case True
    then show ?thesis using processAgentReaction_dropped[OF Some True]
      by (intro exI[of _ "[CallMe a]"]) simp
  next
    case False
    let ?s1 = "log_call (DedupInsert (tweet_id tw))
                       ((log_call (CallMe a) s)
                          \<lparr>processedTweetIds := insert (tweet_id tw) (processedTweetIds s)\<rparr>)"
    have t1: "trace ?s1 = trace s @ [CallMe a, DedupInsert (tweet_id tw)]" by simp
    have p1: "tweet_id tw \<in> processedTweetIds ?s1" by simp
    have "\<exists>Y. trace (snd (processAgentReaction s a tw e)) = trace ?s1 @ Y \<and>
              length (reactionCalls Y) \<le> 1"
      using False processAgentReaction_accepted[OF Some, of e tw]
        mentionPath_trace[of ?s1 a tw e] reactionPath_trace[of ?s1 a ag tw e]
      by (simp add: Let_def)
    then obtain Y where Y: "trace (snd (processAgentReaction s a tw e)) = trace ?s1 @ Y"
      "length (reactionCalls Y) \<le> 1" by blast
    have "processedTweetIds (snd (processAgentReaction s a tw e)) = processedTweetIds ?s1"
      using False processAgentReaction_accepted[OF Some, of e tw]
      by (simp add: Let_def mentionPath_frame reactionPath_frame)
    then have p: "tweet_id tw \<in> processedTweetIds (snd (processAgentReaction s a tw e))"
      using p1 by simp
    have "trace (snd (processAgentReaction s a tw e)) = trace s @ (CallMe a # DedupInsert (tweet_id tw) # Y)"
      using Y(1) t1 by simp
    then show ?thesis using Y(2) False p
      by (intro exI[of _ "CallMe a # DedupInsert (tweet_id tw) # Y"]) simp
  qed
qed

section \<open>Properties of the reaction pipeline\<close>

lemma newCalls_append: "trace s' = trace s @ X \<Longrightarrow> newCalls s s' = X"
  by (simp add: newCalls_def)

lemma toLowerCase_Nil_iff [simp]: "toLowerCase v = [] \<longleftrightarrow> v = []"
  by (simp add: toLowerCase_def)

lemma isSelfMention_by_username:
  assumes "e_me e = Inr u" "u \<noteq> []" "authorUsername tw = Some v" "toLowerCase v = toLowerCase u"
  shows "isSelfMention a (fetchedUsername e) tw"
proof -
  have "v \<noteq> []" using assms(2,4) by (metis toLowerCase_Nil_iff)
  then show ?thesis using assms by (simp add: isSelfMention_def fetchedUsername_def)
qed

lemma isSelfMention_by_id: "authorId tw = a \<Longrightarrow> isSelfMention a u tw"
  by (simp add: isSelfMention_def)

lemma processAgentReaction_self:
  assumes "isSelfMention a (fetchedUsername e) tw"
  shows "snd (processAgentReaction s a tw e) = s \<or>
         snd (processAgentReaction s a tw e) = log_call (CallMe a) s"
proof (cases "agents s a")
  case None
  then show ?thesis by (simp add: processAgentReaction_unregistered)
next
  case (Some ag)
  then show ?thesis using processAgentReaction_dropped[OF Some] assms by simp
qed

lemma processAgentReaction_inserts:
  assumes "processedTweetIds (snd (processAgentReaction s a tw e)) \<noteq> processedTweetIds s"
  shows "\<not> isSelfMention a (fetchedUsername e) tw \<and> tweet_id tw \<notin> processedTweetIds s \<and>
         processedTweetIds (snd (processAgentReaction s a tw e)) = insert (tweet_id tw) (processedTweetIds s)"
proof -
  have 1: "\<not> isSelfMention a (fetchedUsername e) tw"
    using processAgentReaction_self[of a e tw s] assms by auto
  have 2: "processedTweetIds (snd (processAgentReaction s a tw e)) = insert (tweet_id tw) (processedTweetIds s)"
    using processAgentReaction_processed[of s a tw e] assms by blast
  have 3: "tweet_id tw \<notin> processedTweetIds s" using 2 assms by auto
  show ?thesis using 1 2 3 by blast
qed

lemma reaction_after_insert:
  assumes "X = CallMe a # DedupInsert i # Y" "X = pre @ ev # post" "isReactionCall ev"
  shows "DedupInsert i \<in> set pre"
proof (cases pre)
  case Nil
  then show ?thesis using assms by auto
next
  case (Cons p pre')
  show ?thesis
  proof (cases pre')
    case Nil
    then show ?thesis using assms Cons by auto
  next
    case (Cons q pre'')
    then show ?thesis using assms \<open>pre = p # pre'\<close> by auto
  qed
qed

lemma no_reaction_split:
  assumes "reactionCalls X = []" "X = pre @ ev # post"
  shows "\<not> isReactionCall ev"
  using assms by (auto simp: reactionCalls_def filter_empty_conv)

lemma deliverAll_trace:
  assumes "\<forall>d \<in> set ds. tweet_id (fst (snd d)) = i"
  shows "\<exists>Z. trace (deliverAll s ds) = trace s @ Z \<and> length (reactionCalls Z) \<le> 1 \<and>
             (i \<in> processedTweetIds s \<longrightarrow> reactionCalls Z = [])"
  using assms
proof (induction ds arbitrary: s)
  case Nil
  then show ?case by (intro exI[of _ "[]"]) simp
next
  case (Cons d ds)
  obtain a tw e where d: "d = (a, tw, e)" by (cases d) auto
  have i: "tweet_id tw = i" using Cons.prems d by simp
  let ?s1 = "snd (processAgentReaction s a tw e)"
  obtain X where X: "trace ?s1 = trace s @ X"
    and Xc: "reactionCalls X = [] \<or>
        (tweet_id tw \<notin> processedTweetIds s \<and> tweet_id tw \<in> processedTweetIds ?s1 \<and>
         (\<exists>Y. X = CallMe a # DedupInsert (tweet_id tw) # Y \<and> length (reactionCalls Y) \<le> 1))"
    using processAgentReaction_trace[of s a tw e] by blast
  have "\<forall>d \<in> set ds. tweet_id (fst (snd d)) = i" using Cons.prems by simp
  from Cons.IH[OF this, of ?s1]
  obtain Z where Z: "trace (deliverAll ?s1 ds) = trace ?s1 @ Z" "length (reactionCalls Z) \<le> 1"
    "i \<in> processedTweetIds ?s1 \<longrightarrow> reactionCalls Z = []" by blast
  have t: "trace (deliverAll s (d # ds)) = trace s @ (X @ Z)"
    using d X Z(1) by simp
  have mono: "i \<in> processedTweetIds s \<longrightarrow> i \<in> processedTweetIds ?s1"
    using processAgentReaction_processed_mono[of s a tw e] by auto
  from Xc show ?case
  proof
    assume n: "reactionCalls X = []"
    then show ?thesis using t Z mono by (intro exI[of _ "X @ Z"]) simp
  next
    assume c: "tweet_id tw \<notin> processedTweetIds s \<and> tweet_id tw \<in> processedTweetIds ?s1 \<and>
         (\<exists>Y. X = CallMe a # DedupInsert (tweet_id tw) # Y \<and> length (reactionCalls Y) \<le> 1)"
    then have "reactionCalls Z = []" using Z(3) i by simp
    moreover have "length (reactionCalls X) \<le> 1" using c by auto
    ultimately show ?thesis using t c i by (intro exI[of _ "X @ Z"]) simp
  qed
qed

lemma createAgentPost_quote:
  assumes "agents s a = Some ag" "e_content e = Inr c" "task opts = TaskQuoteTweet" "ignoreTimeConstraint opts"
  shows "\<exists>content. trace (snd (createAgentPost s a opts e)) =
            trace s @ [CallGenerateTweet a, CallPostTweet a content None] \<and>
          fst (createAgentPost s a opts e) \<noteq> Inr None"
  using assms
  by (auto simp: createAgentPost_def scheduleNextPost_def addTweetToAgentMemory_def getAgent_def
      replyToTweetId_def Let_def split: sum.splits option.splits)

lemma reactionPath_quote:
  assumes "agents s a = Some ag" "e_reaction e = Inr ''quote''" "e_content e = Inr c"
  shows "(e_rQuote e \<le> quoteTweetProbability (interactionPatterns ag) * (1 / 2) \<longrightarrow>
            (\<exists>content. trace (snd (reactionPath s a ag tw e)) =
               trace s @ [CallGenerateReaction a (tweet_id tw), CallGenerateTweet a,
                          CallPostTweet a content None])) \<and>
         (e_rQuote e > quoteTweetProbability (interactionPatterns ag) * (1 / 2) \<longrightarrow>
            reactionPath s a ag tw e = (Inr None, log_call (CallGenerateReaction a (tweet_id tw)) s))"
proof (intro conjI impI)
  let ?s1 = "log_call (CallGenerateReaction a (tweet_id tw)) s"
  let ?opts = "\<lparr>task = TaskQuoteTweet, replyTo = None, quoteTweet = Some tw,
                     avoidContextQuestions = False, ignoreTimeConstraint = True\<rparr>"
  assume le: "e_rQuote e \<le> quoteTweetProbability (interactionPatterns ag) * (1 / 2)"
  have r: "reactionPath s a ag tw e = posted (createAgentPost ?s1 a ?opts e)"
    using assms(2) le by (simp add: reactionPath_def Let_def)
  have "agents ?s1 a = Some ag" using assms(1) by simp
  from createAgentPost_quote[OF this assms(3), of ?opts]
  obtain content where "trace (snd (createAgentPost ?s1 a ?opts e)) =
            trace ?s1 @ [CallGenerateTweet a, CallPostTweet a content None]" by auto
  then show "\<exists>content. trace (snd (reactionPath s a ag tw e)) =
               trace s @ [CallGenerateReaction a (tweet_id tw), CallGenerateTweet a,
                          CallPostTweet a content None]"
    using r by simp
next
  assume "e_rQuote e > quoteTweetProbability (interactionPatterns ag) * (1 / 2)"
  then show "reactionPath s a ag tw e = (Inr None, log_call (CallGenerateReaction a (tweet_id tw)) s)"
    using assms(2) by (simp add: reactionPath_def Let_def)
qed

text \<open>
  Claim C3, as stated, says that an item whose author username matches the agent's
  username, case-insensitively, is never answered. The agent's username is known to
  \<open>processAgentReaction\<close> only through the lookup \<open>me()\<close>; when the lookup throws, the
  \<open>catch\<close> continues with the comparison of ids alone. The account of \<open>bot1\<close> is named
  \<open>Bot1\<close>; an item written by \<open>BOT1\<close> under the account's numeric id, delivered while the
  lookup fails, is taken as a mention and answered with a reply.
\<close>

theorem failed_lookup_counterexample:
  "agents exampleState ''bot1'' = Some exampleAgent \<and>
   e_me exampleEnv = Inr ''Bot1'' \<and> authorUsername selfTweet = Some ''BOT1'' \<and>
   toLowerCase ''BOT1'' = toLowerCase ''Bot1'' \<and>
   e_me failedLookupEnv = Inl notFound \<and>
   fst (processAgentReaction exampleState ''bot1'' selfTweet failedLookupEnv)
     = Inr (Some (Posted \<lparr>pr_content = ''hello world'', pr_agentId = ''bot1'',
                          pr_tweetId = Some ''p1''\<rparr>)) \<and>
   reactionCalls (newCalls exampleState
     (snd (processAgentReaction exampleState ''bot1'' selfTweet failedLookupEnv)))
     = [CallPostTweet ''bot1'' ''hello world'' (Some ''t2'')]"
proof -
  have 1: "agents exampleState ''bot1'' = Some exampleAgent" by (simp add: exampleState_def)
  have 2: "e_me exampleEnv = Inr ''Bot1''" by (simp add: exampleEnv_def)
  have 3: "authorUsername selfTweet = Some ''BOT1''" by (simp add: selfTweet_def)
  have 4: "toLowerCase ''BOT1'' = toLowerCase ''Bot1''" by code_simp
  have 5: "e_me failedLookupEnv = Inl notFound" by (simp add: failedLookupEnv_def)
  have 6: "fst (processAgentReaction exampleState ''bot1'' selfTweet failedLookupEnv)
     = Inr (Some (Posted \<lparr>pr_content = ''hello world'', pr_agentId = ''bot1'',
                          pr_tweetId = Some ''p1''\<rparr>))" by code_simp
  have 7: "reactionCalls (newCalls exampleState
     (snd (processAgentReaction exampleState ''bot1'' selfTweet failedLookupEnv)))
     = [CallPostTweet ''bot1'' ''hello world'' (Some ''t2'')]" by code_simp
  show ?thesis using 1 2 3 4 5 6 7 by blast
qed

text \<open>
  Claim C3, amended (self-mention immunity): for a registered agent, an item whose
  \<open>authorId\<close> equals the agent's id, or whose author username matches, case-insensitively,
  the username that the lookup \<open>me()\<close> returns in that invocation, makes
  \<open>processAgentReaction\<close> return \<open>null\<close> with no post and no like. When the lookup throws,
  an item is a self-mention exactly when its \<open>authorId\<close> equals the agent's id.
\<close>

theorem self_mention_immunity:
  assumes "agents s agentId = Some a"
  shows "(authorId tw = agentId \<or>
          (\<exists>u v. e_me e = Inr u \<and> u \<noteq> [] \<and> authorUsername tw = Some v \<and>
                 toLowerCase v = toLowerCase u) \<longrightarrow>
            fst (processAgentReaction s agentId tw e) = Inr None \<and>
            reactionCalls (newCalls s (snd (processAgentReaction s agentId tw e))) = []) \<and>
         (\<forall>err. e_me e = Inl err \<longrightarrow>
            (isSelfMention agentId (fetchedUsername e) tw \<longleftrightarrow> authorId tw = agentId))"
proof (intro conjI impI allI)
  assume h: "authorId tw = agentId \<or>
          (\<exists>u v. e_me e = Inr u \<and> u \<noteq> [] \<and> authorUsername tw = Some v \<and>
                 toLowerCase v = toLowerCase u)"
  have self: "isSelfMention agentId (fetchedUsername e) tw"
    using h isSelfMention_by_id isSelfMention_by_username by blast
  have r: "processAgentReaction s agentId tw e = (Inr None, log_call (CallMe agentId) s)"
    using processAgentReaction_dropped[OF assms(1)] self by blast
  have n: "newCalls s (log_call (CallMe agentId) s) = [CallMe agentId]"
    by (simp add: newCalls_append)
  show "fst (processAgentReaction s agentId tw e) = Inr None" using r by simp
  show "reactionCalls (newCalls s (snd (processAgentReaction s agentId tw e))) = []"
    using r n by simp
next
  fix err
  assume "e_me e = Inl err"
  then show "isSelfMention agentId (fetchedUsername e) tw \<longleftrightarrow> authorId tw = agentId"
    by (simp add: isSelfMention_def fetchedUsername_def)
qed

theorem self_mention_immunity_witness:
  "agents exampleState ''bot1'' = Some exampleAgent \<and>
   e_me exampleEnv = Inr ''Bot1'' \<and> authorUsername selfTweet = Some ''BOT1'' \<and>
   toLowerCase ''BOT1'' = toLowerCase ''Bot1'' \<and>
   fst (processAgentReaction exampleState ''bot1'' selfTweet exampleEnv) = Inr None \<and>
   reactionCalls (newCalls exampleState
     (snd (processAgentReaction exampleState ''bot1'' selfTweet exampleEnv))) = [] \<and>
   e_me failedLookupEnv = Inl notFound \<and> authorId selfTweet \<noteq> ''bot1'' \<and>
   \<not> isSelfMention ''bot1'' (fetchedUsername failedLookupEnv) selfTweet"
proof -
  have a: "agents exampleState ''bot1'' = Some exampleAgent" by (simp add: exampleState_def)
  have m: "e_me exampleEnv = Inr ''Bot1''" by (simp add: exampleEnv_def)
  have u: "authorUsername selfTweet = Some ''BOT1''" by (simp add: selfTweet_def)
  have l: "toLowerCase ''BOT1'' = toLowerCase ''Bot1''" by code_simp
  have f: "e_me failedLookupEnv = Inl notFound" by (simp add: failedLookupEnv_def)
  have i: "authorId selfTweet \<noteq> ''bot1''" by (simp add: selfTweet_def)
  have d: "authorId selfTweet = ''bot1'' \<or>
         (\<exists>u v. e_me exampleEnv = Inr u \<and> u \<noteq> [] \<and> authorUsername selfTweet = Some v \<and>
                toLowerCase v = toLowerCase u)"
    using m u l by blast
  have 1: "fst (processAgentReaction exampleState ''bot1'' selfTweet exampleEnv) = Inr None \<and>
   reactionCalls (newCalls exampleState
     (snd (processAgentReaction exampleState ''bot1'' selfTweet exampleEnv))) = []"
    using self_mention_immunity [OF a, of selfTweet exampleEnv] d by blast
  have 2: "\<not> isSelfMention ''bot1'' (fetchedUsername failedLookupEnv) selfTweet"
    using self_mention_immunity [OF a, of selfTweet failedLookupEnv] f i by blast
  show ?thesis using a m u l 1 f i 2 by blast
qed

text \<open>
  Claim C10 (the self-check precedes the insertion): when the item is a self-mention,
  \<open>processAgentReaction\<close> leaves \<open>processedTweetIds\<close>, the relationships, the tweet
  history and the agents as they were; and whenever an invocation changes
  \<open>processedTweetIds\<close>, the item passed the self-check and its id is what was added.
\<close>

theorem self_check_precedes_dedup:
  "(isSelfMention agentId (fetchedUsername e) tw \<longrightarrow>
      processedTweetIds (snd (processAgentReaction s agentId tw e)) = processedTweetIds s \<and>
      relationships (snd (processAgentReaction s agentId tw e)) = relationships s \<and>
      tweetHistory (snd (processAgentReaction s agentId tw e)) = tweetHistory s \<and>
      agents (snd (processAgentReaction s agentId tw e)) = agents s) \<and>
   (processedTweetIds (snd (processAgentReaction s agentId tw e)) \<noteq> processedTweetIds s \<longrightarrow>
      \<not> isSelfMention agentId (fetchedUsername e) tw \<and>
      processedTweetIds (snd (processAgentReaction s agentId tw e))
        = insert (tweet_id tw) (processedTweetIds s))"
proof (intro conjI impI)
  assume self: "isSelfMention agentId (fetchedUsername e) tw"
  note d = processAgentReaction_self[OF self, of s]
  show "processedTweetIds (snd (processAgentReaction s agentId tw e)) = processedTweetIds s"
    using d by auto
  show "relationships (snd (processAgentReaction s agentId tw e)) = relationships s"
    using d by auto
  show "tweetHistory (snd (processAgentReaction s agentId tw e)) = tweetHistory s"
    using d by auto
  show "agents (snd (processAgentReaction s agentId tw e)) = agents s"
    using d by auto
next
  assume "processedTweetIds (snd (processAgentReaction s agentId tw e)) \<noteq> processedTweetIds s"
  from processAgentReaction_inserts[OF this]
  show "\<not> isSelfMention agentId (fetchedUsername e) tw" 
    and "processedTweetIds (snd (processAgentReaction s agentId tw e))
        = insert (tweet_id tw) (processedTweetIds s)" by blast+
qed

theorem self_check_precedes_dedup_witness:
  "isSelfMention ''bot1'' (fetchedUsername exampleEnv) selfTweet \<and>
   processedTweetIds (snd (processAgentReaction exampleState ''bot1'' selfTweet exampleEnv))
     = processedTweetIds exampleState \<and>
   processedTweetIds (snd (processAgentReaction exampleState ''bot1'' exampleTweet exampleEnv))
     \<noteq> processedTweetIds exampleState \<and>
   \<not> isSelfMention ''bot1'' (fetchedUsername exampleEnv) exampleTweet \<and>
   processedTweetIds (snd (processAgentReaction exampleState ''bot1'' exampleTweet exampleEnv))
     = insert (tweet_id exampleTweet) (processedTweetIds exampleState)"
proof -
  have self: "isSelfMention ''bot1'' (fetchedUsername exampleEnv) selfTweet" by code_simp
  have "''t1'' \<in> processedTweetIds (snd (processAgentReaction exampleState ''bot1'' exampleTweet exampleEnv))"
    by code_simp
  moreover have "''t1'' \<notin> processedTweetIds exampleState" by (simp add: exampleState_def)
  ultimately have ch:
    "processedTweetIds (snd (processAgentReaction exampleState ''bot1'' exampleTweet exampleEnv))
       \<noteq> processedTweetIds exampleState" by auto
  show ?thesis
    using self ch
      self_check_precedes_dedup [of "''bot1''" exampleEnv selfTweet exampleState]
      self_check_precedes_dedup [of "''bot1''" exampleEnv exampleTweet exampleState]
    by blast
qed

text \<open>
  Claim C2, as stated, says that after the first delivery of an item the dedup store
  contains its id. It fails for an item the agent wrote itself: the self-check drops it
  before the store is consulted, so its id is not stored.
\<close>

theorem first_delivery_not_stored_counterexample:
  "agents exampleState ''bot1'' = Some exampleAgent \<and>
   fst (processAgentReaction exampleState ''bot1'' selfTweet exampleEnv) = Inr None \<and>
   tweet_id selfTweet
     \<notin> processedTweetIds (snd (processAgentReaction exampleState ''bot1'' selfTweet exampleEnv))"
proof -
  have "agents exampleState ''bot1'' = Some exampleAgent" by (simp add: exampleState_def)
  moreover have "fst (processAgentReaction exampleState ''bot1'' selfTweet exampleEnv) = Inr None"
    by code_simp
  moreover have "tweet_id selfTweet
     \<notin> processedTweetIds (snd (processAgentReaction exampleState ''bot1'' selfTweet exampleEnv))"
    by code_simp
  ultimately show ?thesis by blast
qed

text \<open>
  Claim C2, amended (at most once): for a registered agent, (1) an invocation with an item
  whose id is in \<open>processedTweetIds\<close> returns \<open>null\<close>, makes no post and no like, and
  leaves the store as it was; (2) after an invocation with an item that is not a
  self-mention the store contains the item's id; (3) within an invocation every post or
  like comes after the insertion of the item's id into the store; and (4) over any
  sequence of deliveries of items with one id, to any agents and with any answers of the
  collaborators, at most one post or like is made.
\<close>

theorem at_most_once:
  assumes "agents s agentId = Some a"
  shows "(tweet_id tw \<in> processedTweetIds s \<longrightarrow>
            fst (processAgentReaction s agentId tw e) = Inr None \<and>
            reactionCalls (newCalls s (snd (processAgentReaction s agentId tw e))) = [] \<and>
            processedTweetIds (snd (processAgentReaction s agentId tw e)) = processedTweetIds s) \<and>
         (\<not> isSelfMention agentId (fetchedUsername e) tw \<longrightarrow>
            tweet_id tw \<in> processedTweetIds (snd (processAgentReaction s agentId tw e))) \<and>
         (\<forall>pre ev post.
            newCalls s (snd (processAgentReaction s agentId tw e)) = pre @ ev # post \<and>
            isReactionCall ev \<longrightarrow> DedupInsert (tweet_id tw) \<in> set pre) \<and>
         ((\<forall>d \<in> set ds. tweet_id (fst (snd d)) = tweet_id tw) \<longrightarrow>
            length (reactionCalls (newCalls s0 (deliverAll s0 ds))) \<le> 1)"
proof (intro conjI impI allI)
  assume dup: "tweet_id tw \<in> processedTweetIds s"
  have r: "processAgentReaction s agentId tw e = (Inr None, log_call (CallMe agentId) s)"
    using processAgentReaction_dropped[OF assms] dup by blast
  show "fst (processAgentReaction s agentId tw e) = Inr None" using r by simp
  show "reactionCalls (newCalls s (snd (processAgentReaction s agentId tw e))) = []"
    using r by (simp add: newCalls_def)
  show "processedTweetIds (snd (processAgentReaction s agentId tw e)) = processedTweetIds s"
    using r by simp
next
  assume ns: "\<not> isSelfMention agentId (fetchedUsername e) tw"
  show "tweet_id tw \<in> processedTweetIds (snd (processAgentReaction s agentId tw e))"
  proof (cases "tweet_id tw \<in> processedTweetIds s")
    case True
    then show ?thesis using processAgentReaction_processed_mono[of s agentId tw e] by auto
  next
    case False
    then show ?thesis using processAgentReaction_accepted[OF assms ns False]
      by (simp add: Let_def mentionPath_frame reactionPath_frame)
  qed
next
  fix pre ev post
  assume h: "newCalls s (snd (processAgentReaction s agentId tw e)) = pre @ ev # post \<and>
            isReactionCall ev"
  obtain X where X: "trace (snd (processAgentReaction s agentId tw e)) = trace s @ X"
    and Xc: "reactionCalls X = [] \<or>
        (tweet_id tw \<notin> processedTweetIds s \<and>
         tweet_id tw \<in> processedTweetIds (snd (processAgentReaction s agentId tw e)) \<and>
         (\<exists>Y. X = CallMe agentId # DedupInsert (tweet_id tw) # Y \<and> length (reactionCalls Y) \<le> 1))"
    using processAgentReaction_trace[of s agentId tw e] by blast
  have sp: "X = pre @ ev # post" using h newCalls_append[OF X] by simp
  from Xc show "DedupInsert (tweet_id tw) \<in> set pre"
  proof
    assume "reactionCalls X = []"
    then show ?thesis using no_reaction_split[OF _ sp] h by blast
  next
    assume "tweet_id tw \<notin> processedTweetIds s \<and>
         tweet_id tw \<in> processedTweetIds (snd (processAgentReaction s agentId tw e)) \<and>
         (\<exists>Y. X = CallMe agentId # DedupInsert (tweet_id tw) # Y \<and> length (reactionCalls Y) \<le> 1)"
    then obtain Y where "X = CallMe agentId # DedupInsert (tweet_id tw) # Y" by blast
    from reaction_after_insert[OF this sp] h show ?thesis by blast
  qed
next
  assume "\<forall>d \<in> set ds. tweet_id (fst (snd d)) = tweet_id tw"
  from deliverAll_trace[OF this, of s0]
  obtain Z where "trace (deliverAll s0 ds) = trace s0 @ Z" "length (reactionCalls Z) \<le> 1"
    by blast
  then show "length (reactionCalls (newCalls s0 (deliverAll s0 ds))) \<le> 1"
    by (simp add: newCalls_append)
qed

theorem at_most_once_witness:
  "agents exampleState ''bot1'' = Some exampleAgent \<and>
   \<not> isSelfMention ''bot1'' (fetchedUsername exampleEnv) exampleTweet \<and>
   tweet_id exampleTweet \<in> processedTweetIds afterFirstDelivery \<and>
   newCalls exampleState afterFirstDelivery =
     [CallMe ''bot1'', DedupInsert ''t1'', CallGenerateReaction ''bot1'' ''t1'',
      CallGenerateTweet ''bot1''] @ CallPostTweet ''bot1'' ''hello world'' None # [] \<and>
   DedupInsert (tweet_id exampleTweet)
     \<in> set [CallMe ''bot1'', DedupInsert ''t1'', CallGenerateReaction ''bot1'' ''t1'',
            CallGenerateTweet ''bot1''] \<and>
   agents afterFirstDelivery ''bot1'' \<noteq> None \<and>
   fst (processAgentReaction afterFirstDelivery ''bot1'' exampleTweet exampleEnv) = Inr None \<and>
   reactionCalls (newCalls afterFirstDelivery
     (snd (processAgentReaction afterFirstDelivery ''bot1'' exampleTweet exampleEnv))) = [] \<and>
   length (reactionCalls (newCalls exampleState
     (deliverAll exampleState
        [(''bot1'', exampleTweet, exampleEnv), (''bot1'', exampleTweet, exampleEnv)]))) \<le> 1"
proof -
  let ?pre = "[CallMe ''bot1'', DedupInsert ''t1'', CallGenerateReaction ''bot1'' ''t1'',
      CallGenerateTweet ''bot1'']"
  let ?ds = "[(''bot1'', exampleTweet, exampleEnv), (''bot1'', exampleTweet, exampleEnv)]"
  have a: "agents exampleState ''bot1'' = Some exampleAgent" by (simp add: exampleState_def)
  have ns: "\<not> isSelfMention ''bot1'' (fetchedUsername exampleEnv) exampleTweet" by code_simp
  have nc: "newCalls exampleState (snd (processAgentReaction exampleState ''bot1'' exampleTweet exampleEnv))
      = ?pre @ CallPostTweet ''bot1'' ''hello world'' None # []"
    by code_simp
  have ids: "\<forall>d \<in> set ?ds. tweet_id (fst (snd d)) = tweet_id exampleTweet" by simp
  have "agents afterFirstDelivery ''bot1'' \<noteq> None" by code_simp
  then obtain ag where b: "agents afterFirstDelivery ''bot1'' = Some ag" by blast
  have dup: "tweet_id exampleTweet \<in> processedTweetIds afterFirstDelivery" by code_simp
  note first = at_most_once [OF a, of exampleTweet exampleEnv ?ds exampleState]
  note second = at_most_once [OF b, of exampleTweet exampleEnv "[]" exampleState]
  have 1: "DedupInsert (tweet_id exampleTweet) \<in> set ?pre"
    using first nc by (metis isReactionCall.simps(1))
  have 2: "length (reactionCalls (newCalls exampleState (deliverAll exampleState ?ds))) \<le> 1"
    using first ids by blast
  have 3: "fst (processAgentReaction afterFirstDelivery ''bot1'' exampleTweet exampleEnv) = Inr None"
    "reactionCalls (newCalls afterFirstDelivery
       (snd (processAgentReaction afterFirstDelivery ''bot1'' exampleTweet exampleEnv))) = []"
    using second dup by blast+
  show ?thesis
    using a ns dup nc 1 2 3 b unfolding afterFirstDelivery_def by simp
qed

text \<open>
  The probability test of the quote suggestion by itself: on the passive path, with the suggestion
  \<open>quote\<close> and a content generator that answers, a post is made exactly when the draw is
  at most \<open>quoteTweetProbability * 0.5\<close>; otherwise the result is \<open>null\<close>.
\<close>

lemma quote_gate:
  assumes "agents s agentId = Some a"
    and "\<not> isSelfMention agentId (fetchedUsername e) tw"
    and "tweet_id tw \<notin> processedTweetIds s"
    and "\<not> isMention a agentId tw"
    and "e_reaction e = Inr ''quote''"
    and "e_content e = Inr c"
  shows "(if e_rQuote e \<le> quoteTweetProbability (interactionPatterns a) * (1 / 2)
          then \<exists>content. reactionCalls (newCalls s (snd (processAgentReaction s agentId tw e)))
                          = [CallPostTweet agentId content None]
          else fst (processAgentReaction s agentId tw e) = Inr None \<and>
               reactionCalls (newCalls s (snd (processAgentReaction s agentId tw e))) = []) \<and>
         (quoteTweetProbability (interactionPatterns a) = 3 / 10 \<longrightarrow>
            {r. 0 \<le> r \<and> r < 1 \<and>
                reactionCalls (newCalls s (snd (processAgentReaction s agentId tw (e\<lparr>e_rQuote := r\<rparr>)))) \<noteq> []}
              = {r. 0 \<le> r \<and> r \<le> 3 / 20})"
proof -
  let ?s1 = "log_call (DedupInsert (tweet_id tw))
                       ((log_call (CallMe agentId) s)
                          \<lparr>processedTweetIds := insert (tweet_id tw) (processedTweetIds s)\<rparr>)"
  have ag1: "agents ?s1 agentId = Some a" using assms(1) by simp
  have t1: "trace ?s1 = trace s @ [CallMe agentId, DedupInsert (tweet_id tw)]" by simp
  have gen: "\<And>r. (r \<le> quoteTweetProbability (interactionPatterns a) * (1 / 2) \<longrightarrow>
          (\<exists>content. reactionCalls (newCalls s (snd (processAgentReaction s agentId tw (e\<lparr>e_rQuote := r\<rparr>))))
                          = [CallPostTweet agentId content None])) \<and>
        (r > quoteTweetProbability (interactionPatterns a) * (1 / 2) \<longrightarrow>
          fst (processAgentReaction s agentId tw (e\<lparr>e_rQuote := r\<rparr>)) = Inr None \<and>
               reactionCalls (newCalls s (snd (processAgentReaction s agentId tw (e\<lparr>e_rQuote := r\<rparr>)))) = [])"
  proof -
    fix r
    let ?e = "e\<lparr>e_rQuote := r\<rparr>"
    have ns: "\<not> isSelfMention agentId (fetchedUsername ?e) tw"
      using assms(2) by (simp add: fetchedUsername_def)
    have p: "processAgentReaction s agentId tw ?e = reactionPath ?s1 agentId a tw ?e"
      using processAgentReaction_accepted[OF assms(1) ns assms(3)] assms(4) by (simp add: Let_def)
    have er: "e_reaction ?e = Inr ''quote''" "e_content ?e = Inr c" "e_rQuote ?e = r"
      using assms(5,6) by simp_all
    note q = reactionPath_quote[OF ag1 er(1) er(2), of tw, unfolded er(3)]
    show "(r \<le> quoteTweetProbability (interactionPatterns a) * (1 / 2) \<longrightarrow>
          (\<exists>content. reactionCalls (newCalls s (snd (processAgentReaction s agentId tw ?e)))
                          = [CallPostTweet agentId content None])) \<and>
        (r > quoteTweetProbability (interactionPatterns a) * (1 / 2) \<longrightarrow>
          fst (processAgentReaction s agentId tw ?e) = Inr None \<and>
               reactionCalls (newCalls s (snd (processAgentReaction s agentId tw ?e))) = [])"
    proof (intro conjI impI)
      assume "r \<le> quoteTweetProbability (interactionPatterns a) * (1 / 2)"
      then obtain content where "trace (snd (reactionPath ?s1 agentId a tw ?e)) =
               trace ?s1 @ [CallGenerateReaction agentId (tweet_id tw), CallGenerateTweet agentId,
                          CallPostTweet agentId content None]"
        using q by blast
      then have "trace (snd (processAgentReaction s agentId tw ?e)) =
          trace s @ [CallMe agentId, DedupInsert (tweet_id tw),
             CallGenerateReaction agentId (tweet_id tw), CallGenerateTweet agentId,
                          CallPostTweet agentId content None]"
        using p t1 by simp
      from newCalls_append[OF this]
      show "\<exists>content. reactionCalls (newCalls s (snd (processAgentReaction s agentId tw ?e)))
                          = [CallPostTweet agentId content None]" by simp
    next
      assume gt: "r > quoteTweetProbability (interactionPatterns a) * (1 / 2)"
      then have rp: "reactionPath ?s1 agentId a tw ?e = (Inr None, log_call (CallGenerateReaction agentId (tweet_id tw)) ?s1)"
        using q by blast
      show "fst (processAgentReaction s agentId tw ?e) = Inr None" using p rp by simp
      have "trace (snd (processAgentReaction s agentId tw ?e)) =
          trace s @ [CallMe agentId, DedupInsert (tweet_id tw),
             CallGenerateReaction agentId (tweet_id tw)]"
        using p rp by simp
      from newCalls_append[OF this]
      show "reactionCalls (newCalls s (snd (processAgentReaction s agentId tw ?e))) = []"
        by simp
    qed
  qed
  have e_id: "e\<lparr>e_rQuote := e_rQuote e\<rparr> = e" by simp
  have first: "(if e_rQuote e \<le> quoteTweetProbability (interactionPatterns a) * (1 / 2)
          then \<exists>content. reactionCalls (newCalls s (snd (processAgentReaction s agentId tw e)))
                          = [CallPostTweet agentId content None]
          else fst (processAgentReaction s agentId tw e) = Inr None \<and>
               reactionCalls (newCalls s (snd (processAgentReaction s agentId tw e))) = [])"
    using gen[of "e_rQuote e"] unfolding e_id by (auto simp: not_le)
  have second: "quoteTweetProbability (interactionPatterns a) = 3 / 10 \<longrightarrow>
            {r. 0 \<le> r \<and> r < 1 \<and>
                reactionCalls (newCalls s (snd (processAgentReaction s agentId tw (e\<lparr>e_rQuote := r\<rparr>)))) \<noteq> []}
              = {r. 0 \<le> r \<and> r \<le> 3 / 20}"
  proof
    assume q: "quoteTweetProbability (interactionPatterns a) = 3 / 10"
    have "\<And>r. reactionCalls (newCalls s (snd (processAgentReaction s agentId tw (e\<lparr>e_rQuote := r\<rparr>)))) \<noteq> []
            \<longleftrightarrow> r \<le> 3 / 20"
    proof -
      fix r
      show "reactionCalls (newCalls s (snd (processAgentReaction s agentId tw (e\<lparr>e_rQuote := r\<rparr>)))) \<noteq> []
            \<longleftrightarrow> r \<le> 3 / 20"
        using gen[of r] unfolding q by (cases "r \<le> 3 / 20") (auto simp: not_le)
    qed
    then show "{r. 0 \<le> r \<and> r < 1 \<and>
                reactionCalls (newCalls s (snd (processAgentReaction s agentId tw (e\<lparr>e_rQuote := r\<rparr>)))) \<noteq> []}
              = {r. 0 \<le> r \<and> r \<le> 3 / 20}"
      by auto
  qed
  show ?thesis using first second by blast
qed

text \<open>What \<open>createAgentPost\<close> returns and does is the same whatever \<open>options.quoteTweet\<close> holds.\<close>

lemma createAgentPost_ignores_quoteTweet:
  "createAgentPost s a (opts\<lparr>quoteTweet := q\<rparr>) e = createAgentPost s a opts e"
proof -
  have r: "replyToTweetId (opts\<lparr>quoteTweet := q\<rparr>) = replyToTweetId opts"
    by (simp add: replyToTweetId_def split: option.splits)
  show ?thesis
  proof (cases "getAgent s a")
    case (Inl err)
    then show ?thesis by (simp add: createAgentPost_def)
  next
    case (Inr ag)
    show ?thesis
    proof (cases "replyTo opts")
      case None
      then show ?thesis unfolding createAgentPost_def r using Inr
        by (simp add: Let_def split: sum.splits)
    next
      case (Some t)
      then show ?thesis unfolding createAgentPost_def r using Inr
        by (simp add: Let_def split: sum.splits)
    qed
  qed
qed

text \<open>
  Claim C8 (quote dampening) says that, when the draw is at most
  \<open>quoteTweetProbability * 0.5\<close>, the quote is published. The test is as claimed, but no
  quote is published behind it: \<open>createAgentPost\<close> is called with the task \<open>quote_tweet\<close>
  and the item in \<open>quoteTweet\<close>, never reads \<open>options.quoteTweet\<close>, asks the provider for a
  new tweet of the agent (\<open>generateTweet\<close>) and hands \<open>postTweet\<close> no \<open>quoteTweetId\<close>,
  although \<open>postTweet\<close> has that option. With the suggestion \<open>quote\<close> and the draw
  \<open>0.1 \<le> 0.3 * 0.5\<close> the calls are those of a plain post, and the same post is made with
  no item to quote.
\<close>

theorem quote_published_as_plain_tweet:
  "agents exampleState ''bot1'' = Some exampleAgent \<and>
   \<not> isMention exampleAgent ''bot1'' exampleTweet \<and>
   e_reaction exampleEnv = Inr ''quote'' \<and>
   e_rQuote exampleEnv \<le> quoteTweetProbability (interactionPatterns exampleAgent) * (1 / 2) \<and>
   newCalls exampleState (snd (processAgentReaction exampleState ''bot1'' exampleTweet exampleEnv))
     = [CallMe ''bot1'', DedupInsert ''t1'', CallGenerateReaction ''bot1'' ''t1'',
        CallGenerateTweet ''bot1'', CallPostTweet ''bot1'' ''hello world'' None] \<and>
   createAgentPost exampleState ''bot1''
       \<lparr>task = TaskQuoteTweet, replyTo = None, quoteTweet = Some exampleTweet,
        avoidContextQuestions = False, ignoreTimeConstraint = True\<rparr> exampleEnv
     = createAgentPost exampleState ''bot1''
         \<lparr>task = TaskQuoteTweet, replyTo = None, quoteTweet = None,
          avoidContextQuestions = False, ignoreTimeConstraint = True\<rparr> exampleEnv"
proof -
  have 1: "agents exampleState ''bot1'' = Some exampleAgent" by (simp add: exampleState_def)
  have 2: "\<not> isMention exampleAgent ''bot1'' exampleTweet" by code_simp
  have 3: "e_reaction exampleEnv = Inr ''quote''" by (simp add: exampleEnv_def)
  have 4: "e_rQuote exampleEnv \<le> quoteTweetProbability (interactionPatterns exampleAgent) * (1 / 2)"
    by (simp add: exampleEnv_def exampleAgent_def)
  have 5: "newCalls exampleState (snd (processAgentReaction exampleState ''bot1'' exampleTweet exampleEnv))
     = [CallMe ''bot1'', DedupInsert ''t1'', CallGenerateReaction ''bot1'' ''t1'',
        CallGenerateTweet ''bot1'', CallPostTweet ''bot1'' ''hello world'' None]" by code_simp
  have 6: "createAgentPost exampleState ''bot1''
       \<lparr>task = TaskQuoteTweet, replyTo = None, quoteTweet = Some exampleTweet,
        avoidContextQuestions = False, ignoreTimeConstraint = True\<rparr> exampleEnv
     = createAgentPost exampleState ''bot1''
         \<lparr>task = TaskQuoteTweet, replyTo = None, quoteTweet = None,
          avoidContextQuestions = False, ignoreTimeConstraint = True\<rparr> exampleEnv"
    using createAgentPost_ignores_quoteTweet[where s = exampleState and a = "''bot1''"
        and opts = "\<lparr>task = TaskQuoteTweet, replyTo = None, quoteTweet = None,
          avoidContextQuestions = False, ignoreTimeConstraint = True\<rparr>"
        and q = "Some exampleTweet" and e = exampleEnv]
    by simp
  show ?thesis using 1 2 3 4 5 6 by blast
qed

section \<open>Properties of the conversation resolver\<close>

lemma length_insertEntry [simp]: "length (insertEntry x xs) = Suc (length xs)"
  by (induction xs) auto

lemma length_foldl_insertEntry:
  "length (foldl (\<lambda>acc x. insertEntry x acc) acc xs) = length acc + length xs"
  by (induction xs arbitrary: acc) auto

lemma length_sortConversation [simp]: "length (sortConversation xs) = length xs"
  by (simp add: sortConversation_def length_foldl_insertEntry)

lemma fetch_thread_length:
  "length (fst (fetchConversationThread g t (h, s) a d m)) \<le> length h + (m - d)"
proof -
  obtain X :: "trace_event list" and N where
    "fst (fetchConversationThread g t (h, s) a d m) = h @ N"
    "length N \<le> length X" "length X \<le> m - d"
    using fetch_thread_shape[of g t h s a d m] by blast
  then show ?thesis by simp
qed

lemma mentionContext_history:
  assumes "conversationHistory tw = None"
    and "conversationHistory (fst (snd (mentionContext s a tw e))) = Some h"
  shows "length h \<le> 6"
proof (cases "truthy (replyToId tw)")
  case False
  then show ?thesis using assms by (simp add: mentionContext_def)
next
  case True
  let ?rid = "the (replyToId tw)"
  let ?s1 = "log_call (CallGetTweet ?rid) s"
  show ?thesis
  proof (cases "e_getTweet e ?rid")
    case (Inl err)
    then show ?thesis using True assms by (simp add: mentionContext_def Let_def)
  next
    case (Inr orig)
    let ?N = "fst (fetchConversationThread (e_getTweet e) ?rid ([], ?s1) a 0 5)"
    have N: "length ?N \<le> 5"
      using fetch_thread_length[of "e_getTweet e" ?rid "[]" ?s1 a 0 5] by simp
    have "h = sortConversation ?N @ [currentEntry tw (e_now e)]"
      using True Inr assms by (simp add: mentionContext_def Let_def split_beta)
    then show ?thesis using N by simp
  qed
qed

text \<open>
  Claim C6 (conversation depth bound): \<open>fetchConversationThread\<close> is a total function
  (its recursion is bounded by \<open>maxDepth - depth\<close>, whatever the reply chain), it has no
  error result (every throw inside it is caught), it only appends to the history, it
  fetches at most \<open>maxDepth - depth\<close> tweets and appends at most one entry per fetch: with
  the defaults, at most 5 entries. The transcript that the mention path builds from it
  has at most 5 entries plus the item itself.
\<close>

theorem conversation_depth_bound:
  "(\<exists>new calls.
      fetchConversationThread getTweet tweetId (hist, s) agentId depth maxDepth
        = (hist @ new, s\<lparr>trace := trace s @ calls\<rparr>) \<and>
      length new \<le> length calls \<and> length calls \<le> maxDepth - depth) \<and>
   length (fst (fetchConversationThread getTweet tweetId (hist, s) agentId 0 5))
     \<le> length hist + 5 \<and>
   (\<forall>h. conversationHistory tw = None \<and>
        conversationHistory (fst (snd (mentionContext s agentId tw e))) = Some h
        \<longrightarrow> length h \<le> 6)"
proof (intro conjI allI impI)
  obtain X N where
    "snd (fetchConversationThread getTweet tweetId (hist, s) agentId depth maxDepth) = s\<lparr>trace := trace s @ X\<rparr>"
    "fst (fetchConversationThread getTweet tweetId (hist, s) agentId depth maxDepth) = hist @ N"
    "length N \<le> length X" "length X \<le> maxDepth - depth"
    using fetch_thread_shape[of getTweet tweetId hist s agentId depth maxDepth] by blast
  then show "\<exists>new calls.
      fetchConversationThread getTweet tweetId (hist, s) agentId depth maxDepth
        = (hist @ new, s\<lparr>trace := trace s @ calls\<rparr>) \<and>
      length new \<le> length calls \<and> length calls \<le> maxDepth - depth"
    by (intro exI[of _ N] exI[of _ X]) (simp add: prod_eq_iff)
next
  show "length (fst (fetchConversationThread getTweet tweetId (hist, s) agentId 0 5))
     \<le> length hist + 5"
    using fetch_thread_length[of getTweet tweetId hist s agentId 0 5] by simp
next
  fix h
  assume "conversationHistory tw = None \<and>
        conversationHistory (fst (snd (mentionContext s agentId tw e))) = Some h"
  then show "length h \<le> 6" using mentionContext_history by blast
qed

text \<open>The witness is the chain with a cycle: five ancestors are fetched, then it stops.\<close>

theorem conversation_depth_bound_witness:
  "conversationHistory replyTweet = None \<and>
   map entry_content (the (conversationHistory
      (fst (snd (mentionContext exampleState ''bot1'' replyTweet cyclicEnv)))))
     = [''from B'', ''from B'', ''from A'', ''from A'', ''from A'', ''nice weather today''] \<and>
   length (the (conversationHistory
      (fst (snd (mentionContext exampleState ''bot1'' replyTweet cyclicEnv))))) \<le> 6 \<and>
   length (fst (fetchConversationThread cyclicGetTweet ''A'' ([], exampleState) ''bot1'' 0 5)) = 5"
proof -
  have n: "conversationHistory replyTweet = None" by (simp add: replyTweet_def exampleTweet_def)
  have "conversationHistory (fst (snd (mentionContext exampleState ''bot1'' replyTweet cyclicEnv))) \<noteq> None"
    by code_simp
  then obtain h where h: "conversationHistory (fst (snd (mentionContext exampleState ''bot1'' replyTweet cyclicEnv))) = Some h"
    by blast
  have c: "map entry_content (the (conversationHistory
      (fst (snd (mentionContext exampleState ''bot1'' replyTweet cyclicEnv)))))
     = [''from B'', ''from B'', ''from A'', ''from A'', ''from A'', ''nice weather today'']"
    by code_simp
  have f: "length (fst (fetchConversationThread cyclicGetTweet ''A'' ([], exampleState) ''bot1'' 0 5)) = 5"
    by code_simp
  have "length h \<le> 6"
    using conversation_depth_bound [of cyclicGetTweet "''A''" "[]" exampleState "''bot1''" 0 5 replyTweet cyclicEnv] n h
    by blast
  then show ?thesis using n h c f by simp
qed

section \<open>Properties of the event queue\<close>


lemma pushEvent_fields [simp]:
  "isProcessing (pushEvent en ev) = isProcessing en"
  "inFlight (pushEvent en ev) = inFlight en"
  "dispatched (pushEvent en ev) = dispatched en"
  "eventQueue (pushEvent en ev) = sortEventQueue (eventQueue en @ [ev])"
  by (simp_all add: pushEvent_def)



lemma mset_sortEventQueue [simp]: "mset (sortEventQueue q) = mset q"
  by (simp add: sortEventQueue_def)





lemma foldl_pushEvent_fields [simp]:
  "isProcessing (foldl pushEvent en evs) = isProcessing en"
  "inFlight (foldl pushEvent en evs) = inFlight en"
  "dispatched (foldl pushEvent en evs) = dispatched en"
  by (induction evs rule: rev_induct) simp_all

lemma checkScheduledEvents_fields [simp]:
  "isProcessing (checkScheduledEvents en now) = isProcessing en"
  "inFlight (checkScheduledEvents en now) = inFlight en"
  "dispatched (checkScheduledEvents en now) = dispatched en"
  by (simp_all add: checkScheduledEvents_def Let_def)










section \<open>Properties of the relationship store\<close>

text \<open>
  Claim C9 (relationship bounds) says that after every \<open>updateRelationship\<close> familiarity
  and trust lie in \<open>[0, 1]\<close>, also for negative changes. The source clamps all three
  values to \<open>[-1, 1]\<close> (line 266), while \<open>core/types.js\<close> documents familiarity and trust
  as \<open>0.0 to 1.0\<close>: a familiarity of \<open>-0.5\<close> and a trust of \<open>-0.2\<close> are stored as
  they are.
\<close>

theorem updateRelationship_below_zero:
  "familiarity (snd (updateRelationship (\<lambda>a. Map.empty) ''bot1'' ''user7'' loweringChanges 1000))
     = - 1 / 2 \<and>
   trust (snd (updateRelationship (\<lambda>a. Map.empty) ''bot1'' ''user7'' loweringChanges 1000))
     = - 1 / 5 \<and>
   \<not> 0 \<le> familiarity
     (snd (updateRelationship (\<lambda>a. Map.empty) ''bot1'' ''user7'' loweringChanges 1000)) \<and>
   \<not> 0 \<le> trust
     (snd (updateRelationship (\<lambda>a. Map.empty) ''bot1'' ''user7'' loweringChanges 1000))"
  by (simp add: updateRelationship_def applyChanges_def getRelationship_def newRelationship_def
      clampBounds_def loweringChanges_def Let_def)

text \<open>What does hold after every update: the sentiment bound and the cap of ten.\<close>

lemma clampBounds_range: "- 1 \<le> clampBounds v \<and> clampBounds v \<le> 1"
  by (simp add: clampBounds_def)

lemma applyChanges_bounds:
  assumes "- 1 \<le> sentiment r \<and> sentiment r \<le> 1" and "length (recentInteractions r) \<le> 10"
  shows "- 1 \<le> sentiment (applyChanges r ch now) \<and> sentiment (applyChanges r ch now) \<le> 1 \<and>
         length (recentInteractions (applyChanges r ch now)) \<le> 10"
  using assms clampBounds_range
  by (auto simp: applyChanges_def Let_def split: option.splits)

section \<open>Properties of the API error backoff\<close>

lemma errorCount_handleApiError:
  "errorCount (handleApiError s a err now) a = errorCount s a + 1"
  by (simp add: handleApiError_def errorCount_def Let_def)

lemma cooldown_handleApiError:
  "apiCooldowns (handleApiError s a err now) a =
     Some (now + int (cooldownMinutes (errorCount s a + 1) err) * 60 * 1000)"
  by (simp add: handleApiError_def Let_def)

lemma consecutiveErrors_snoc:
  "consecutiveErrors s a (es @ [(err, now)]) = handleApiError (consecutiveErrors s a es) a err now"
  by (induction s a es rule: consecutiveErrors.induct) auto

lemma errorCount_consecutiveErrors:
  "errorCount (consecutiveErrors s a es) a = errorCount s a + length es"
  by (induction s a es rule: consecutiveErrors.induct) (auto simp: errorCount_handleApiError)

lemma backoffMinutes_table:
  "0 < n \<Longrightarrow> backoffMinutes n = (if n \<ge> 5 then 60 else [1, 5, 15, 30] ! (n - 1))"
proof -
  assume "0 < n"
  then consider "n = 1" | "n = 2" | "n = 3" | "n = 4" | "n \<ge> 5" by linarith
  then show ?thesis by cases (simp_all add: backoffMinutes_def)
qed

lemma cooldownMinutes_rate_limit: "isRateLimit err \<Longrightarrow> 15 \<le> cooldownMinutes n err"
  by (simp add: cooldownMinutes_def)

lemma mentionWithContext_frame:
  "apiErrorCounts (snd (mentionWithContext s a m e)) = apiErrorCounts s"
proof -
  let ?m1 = "m\<lparr>isDirectMention := True\<rparr>"
  let ?rid = "the (replyToId ?m1)"
  let ?s1 = "log_call (CallGetTweet ?rid) s"
  obtain X N where X: "snd (fetchConversationThread (e_getTweet e) ?rid ([], ?s1) a 0 5)
       = ?s1\<lparr>trace := trace ?s1 @ X\<rparr>" "reactionCalls X = []"
    using fetch_thread_shape[of "e_getTweet e" ?rid "[]" ?s1 a 0 5] by blast
  show ?thesis using X(1)
    by (auto simp: mentionWithContext_def Let_def split_beta split: sum.splits option.splits)
qed

lemma processMentions_frame:
  "apiErrorCounts (snd (processMentions s a envs i ms)) = apiErrorCounts s"
proof (induction ms arbitrary: s i)
  case Nil
  then show ?case by simp
next
  case (Cons m ms)
  obtain m' s1 where mc: "mentionWithContext s a m (envs i) = (m', s1)"
    by (cases "mentionWithContext s a m (envs i)") auto
  have s1: "apiErrorCounts s1 = apiErrorCounts s"
    using mentionWithContext_frame[of s a m "envs i"] mc by simp
  obtain r s2 where pr: "processAgentReaction s1 a m' (envs i) = (r, s2)"
    by (cases "processAgentReaction s1 a m' (envs i)") auto
  have s2: "apiErrorCounts s2 = apiErrorCounts s1"
    using processAgentReaction_frame(1)[of s1 a m' "envs i"] pr by simp
  show ?case
  proof (cases r)
    case (Inl err)
    then show ?thesis using mc pr s1 s2 by simp
  next
    case (Inr v)
    then show ?thesis using mc pr s1 s2 Cons.IH[of s2 "i + 1"] by simp
  qed
qed

lemma processMentions_frame_dest:
  "processMentions s a envs i ms = (r, s') \<Longrightarrow> apiErrorCounts s' = apiErrorCounts s"
  using processMentions_frame[of s a envs i ms] by simp

lemma pollTick_completed:
  assumes "pollTick s p a pe = (Completed, s', p')"
  shows "apiErrorCounts s' a = Some 0"
  using assms
  by (auto simp: pollTick_def Let_def simp del: filter.simps
      split: if_splits sum.splits list.splits prod.splits dest!: processMentions_frame_dest)


lemma isRateLimit_iff:
  "isRateLimit err \<longleftrightarrow> err_code err = Some 429 \<or> 88 \<in> set (err_errors err)"
  by (auto simp: isRateLimit_def list_ex_iff)

lemma cooldownMinutes_table:
  assumes "0 < n"
  shows "cooldownMinutes n err =
           (if err_code err = Some 429 \<or> 88 \<in> set (err_errors err)
            then max (if n \<ge> 5 then 60 else [1, 5, 15, 30] ! (n - 1)) 15
            else (if n \<ge> 5 then 60 else [1, 5, 15, 30] ! (n - 1)))"
  using backoffMinutes_table[OF assms] by (simp add: cooldownMinutes_def isRateLimit_iff)

text \<open>
  Claim C4 (backoff escalation): starting from a counter of zero, after \<open>n \<ge> 1\<close>
  consecutive errors the counter is \<open>n\<close> and the cooldown ends, counted from the clock read
  by the last call, after 1, 5, 15, 30 minutes for \<open>n = 1..4\<close> and 60 minutes from \<open>n = 5\<close>
  on, and after the larger of that and 15 minutes when the last error is a rate limit
  (\<open>error.code\<close> 429, or code 88 among \<open>error.errors\<close>). The same holds for one error from
  any state, with \<open>n\<close> the counter after it. After a poll that completes the counter is
  zero, so that the next error gives 1 minute, or 15 minutes for a rate limit.
\<close>

theorem backoff_escalation:
  assumes "errorCount s agentId = 0" and "errs \<noteq> []"
  shows "errorCount (consecutiveErrors s agentId errs) agentId = length errs \<and>
         apiCooldowns (consecutiveErrors s agentId errs) agentId =
           Some (snd (last errs) +
                 int (if err_code (fst (last errs)) = Some 429 \<or>
                         88 \<in> set (err_errors (fst (last errs)))
                      then max (if length errs \<ge> 5 then 60
                                else [1, 5, 15, 30] ! (length errs - 1)) 15
                      else (if length errs \<ge> 5 then 60
                            else [1, 5, 15, 30] ! (length errs - 1))) * 60 * 1000) \<and>
         errorCount (handleApiError s' agentId err now) agentId = errorCount s' agentId + 1 \<and>
         apiCooldowns (handleApiError s' agentId err now) agentId =
           Some (now +
                 int (if err_code err = Some 429 \<or> 88 \<in> set (err_errors err)
                      then max (if errorCount s' agentId + 1 \<ge> 5 then 60
                                else [1, 5, 15, 30] ! errorCount s' agentId) 15
                      else (if errorCount s' agentId + 1 \<ge> 5 then 60
                            else [1, 5, 15, 30] ! errorCount s' agentId)) * 60 * 1000) \<and>
         (\<forall>s0 p pe s1 p1. pollTick s0 p agentId pe = (Completed, s1, p1) \<longrightarrow>
            errorCount s1 agentId = 0 \<and>
            apiCooldowns (handleApiError s1 agentId err now) agentId =
              Some (now +
                    int (if err_code err = Some 429 \<or> 88 \<in> set (err_errors err)
                         then 15 else 1) * 60 * 1000))"
proof (intro conjI allI impI)
  obtain es e t where sp: "errs = es @ [(e, t)]"
    using assms(2) by (metis rev_exhaust surj_pair)
  show "errorCount (consecutiveErrors s agentId errs) agentId = length errs"
    using assms(1) by (simp add: errorCount_consecutiveErrors)
  have n: "errorCount (consecutiveErrors s agentId es) agentId + 1 = length errs"
    using assms(1) sp by (simp add: errorCount_consecutiveErrors)
  have pos: "0 < length errs" using assms(2) by simp
  have "apiCooldowns (consecutiveErrors s agentId errs) agentId =
          Some (t + int (cooldownMinutes (length errs) e) * 60 * 1000)"
    using sp n by (simp add: consecutiveErrors_snoc cooldown_handleApiError)
  then show "apiCooldowns (consecutiveErrors s agentId errs) agentId =
           Some (snd (last errs) +
                 int (if err_code (fst (last errs)) = Some 429 \<or>
                         88 \<in> set (err_errors (fst (last errs)))
                      then max (if length errs \<ge> 5 then 60
                                else [1, 5, 15, 30] ! (length errs - 1)) 15
                      else (if length errs \<ge> 5 then 60
                            else [1, 5, 15, 30] ! (length errs - 1))) * 60 * 1000)"
    unfolding cooldownMinutes_table[OF pos, of e] using sp by simp
next
  show "errorCount (handleApiError s' agentId err now) agentId = errorCount s' agentId + 1"
    by (rule errorCount_handleApiError)
next
  have "0 < errorCount s' agentId + 1" by simp
  from cooldownMinutes_table[OF this, of err]
  show "apiCooldowns (handleApiError s' agentId err now) agentId =
           Some (now +
                 int (if err_code err = Some 429 \<or> 88 \<in> set (err_errors err)
                      then max (if errorCount s' agentId + 1 \<ge> 5 then 60
                                else [1, 5, 15, 30] ! errorCount s' agentId) 15
                      else (if errorCount s' agentId + 1 \<ge> 5 then 60
                            else [1, 5, 15, 30] ! errorCount s' agentId)) * 60 * 1000)"
    using cooldown_handleApiError[of s' agentId err now] by simp
next
  fix s0 p pe s1 p1
  assume "pollTick s0 p agentId pe = (Completed, s1, p1)"
  then have z: "errorCount s1 agentId = 0"
    using pollTick_completed by (simp add: errorCount_def)
  show "errorCount s1 agentId = 0" by (rule z)
  have "cooldownMinutes 1 err = (if err_code err = Some 429 \<or> 88 \<in> set (err_errors err) then 15 else 1)"
    using cooldownMinutes_table[of 1 err] by simp
  then show "apiCooldowns (handleApiError s1 agentId err now) agentId =
              Some (now +
                    int (if err_code err = Some 429 \<or> 88 \<in> set (err_errors err)
                         then 15 else 1) * 60 * 1000)"
    using cooldown_handleApiError[of s1 agentId err now] z by simp
qed

theorem backoff_escalation_witness:
  "errorCount exampleState ''bot1'' = 0 \<and> fourErrors \<noteq> [] \<and>
   map (\<lambda>n. apiCooldowns (consecutiveErrors exampleState ''bot1'' (take n fourErrors)) ''bot1'')
     [1, 2, 3, 4]
     = [Some (1000 + 1 * 60 * 1000), Some (2000 + 5 * 60 * 1000), Some (3000 + 15 * 60 * 1000),
        Some (4000 + 30 * 60 * 1000)] \<and>
   88 \<in> set (err_errors (fst (last fourErrors))) \<and>
   err_code rateLimitError = Some 429 \<and>
   apiCooldowns (handleApiError exampleState ''bot1'' rateLimitError 7) ''bot1''
     = Some (7 + 15 * 60 * 1000) \<and>
   apiCooldowns (handleApiError exampleState ''bot1'' code88Error 7) ''bot1''
     = Some (7 + 15 * 60 * 1000) \<and>
   fst (pollTick (consecutiveErrors exampleState ''bot1'' threeErrors) examplePoller ''bot1''
          latePoll) = Completed \<and>
   apiCooldowns
     (handleApiError
        (fst (snd (pollTick (consecutiveErrors exampleState ''bot1'' threeErrors) examplePoller
                     ''bot1'' latePoll)))
        ''bot1'' plainError 2000000) ''bot1''
     = Some (2000000 + 1 * 60 * 1000)"
proof -
  let ?s3 = "consecutiveErrors exampleState ''bot1'' threeErrors"
  have z: "errorCount exampleState ''bot1'' = 0" by code_simp
  have ne: "fourErrors \<noteq> []" by (simp add: fourErrors_def)
  have m: "map (\<lambda>n. apiCooldowns (consecutiveErrors exampleState ''bot1'' (take n fourErrors)) ''bot1'')
     [1, 2, 3]
     = [Some (1000 + 1 * 60 * 1000), Some (2000 + 5 * 60 * 1000), Some (3000 + 15 * 60 * 1000)]"
    by code_simp
  have l: "length fourErrors = 4" "last fourErrors = (code88Error, 4000)"
    by (simp_all add: fourErrors_def threeErrors_def)
  have c88: "88 \<in> set (err_errors code88Error)" "err_code code88Error = None"
    by (simp_all add: code88Error_def)
  have c429: "err_code rateLimitError = Some 429" by (simp add: rateLimitError_def)
  have pl: "err_code plainError = None" "err_errors plainError = []"
    by (simp_all add: plainError_def)
  have c: "fst (pollTick ?s3 examplePoller ''bot1'' latePoll) = Completed" by code_simp
  then obtain s1 p1 where p: "pollTick ?s3 examplePoller ''bot1'' latePoll = (Completed, s1, p1)"
    by (cases "pollTick ?s3 examplePoller ''bot1'' latePoll") auto
  note t4 = backoff_escalation [OF z ne, where err = plainError and now = 2000000
      and s' = exampleState]
  note t429 = backoff_escalation [OF z ne, where err = rateLimitError and now = 7
      and s' = exampleState]
  note t88 = backoff_escalation [OF z ne, where err = code88Error and now = 7
      and s' = exampleState]
  have 1: "apiCooldowns (consecutiveErrors exampleState ''bot1'' fourErrors) ''bot1''
      = Some (4000 + 30 * 60 * 1000)"
    using t4 l c88 by simp
  have 2: "apiCooldowns (handleApiError exampleState ''bot1'' rateLimitError 7) ''bot1''
     = Some (7 + 15 * 60 * 1000)"
    using t429 z c429 by simp
  have 3: "apiCooldowns (handleApiError exampleState ''bot1'' code88Error 7) ''bot1''
     = Some (7 + 15 * 60 * 1000)"
    using t88 z c88 by simp
  have "apiCooldowns (handleApiError s1 ''bot1'' plainError 2000000) ''bot1''
          = Some (2000000 + int (if err_code plainError = Some 429 \<or> 88 \<in> set (err_errors plainError)
                         then 15 else 1) * 60 * 1000)"
    using t4 p by blast
  then have 4: "apiCooldowns (handleApiError s1 ''bot1'' plainError 2000000) ''bot1''
      = Some (2000000 + 1 * 60 * 1000)"
    using pl by simp
  have t: "take 4 fourErrors = fourErrors" using l by simp
  show ?thesis using z ne m 1 2 3 4 c p l c88 c429 t by simp
qed

section \<open>Properties of the cooldown\<close>

lemma createAgentPost_ignores_cooldowns:
  "fst (createAgentPost (s\<lparr>apiCooldowns := cd\<rparr>) a opts e) = fst (createAgentPost s a opts e) \<and>
   snd (createAgentPost (s\<lparr>apiCooldowns := cd\<rparr>) a opts e)
     = (snd (createAgentPost s a opts e))\<lparr>apiCooldowns := cd\<rparr>"
  by (auto simp: createAgentPost_def scheduleNextPost_def addTweetToAgentMemory_def getAgent_def
      log_call_def Let_def split: sum.splits option.splits)

text \<open>
  Claim C5, as stated, says that during an agent's cooldown both the mention poll and
  the creation of posts are skipped. \<open>createAgentPost\<close> never reads \<open>apiCooldowns\<close>: with
  the cooldown running until 900000, a post scheduled at time 5000 is generated and sent.
\<close>

theorem post_during_cooldown_counterexample:
  "apiCooldowns coolingState ''bot1'' = Some 900000 \<and> e_now exampleEnv < 900000 \<and>
   reactionCalls (newCalls coolingState
     (snd (createAgentPost coolingState ''bot1'' scheduledPost exampleEnv)))
     = [CallPostTweet ''bot1'' ''hello world'' None]"
  by code_simp

text \<open>
  Claim C5, amended: while the clock (not negative) is before the agent's cooldown end,
  a tick of the mention poll returns at once, with no call to a collaborator and the
  state and the closure variables as they were; nothing is queued or retried. The
  creation of posts is not gated by the cooldown: what \<open>createAgentPost\<close> returns and does
  is the same whatever \<open>apiCooldowns\<close> holds.
\<close>

theorem poll_skipped_in_cooldown:
  assumes "apiCooldowns s agentId = Some c" and "p_now pe < c" and "0 \<le> p_now pe"
  shows "pollTick s p agentId pe = (Skipped, s, p) \<and>
         fst (createAgentPost (s\<lparr>apiCooldowns := cd\<rparr>) agentId opts e)
           = fst (createAgentPost s agentId opts e) \<and>
         snd (createAgentPost (s\<lparr>apiCooldowns := cd\<rparr>) agentId opts e)
           = (snd (createAgentPost s agentId opts e))\<lparr>apiCooldowns := cd\<rparr>"
proof -
  have "inCooldown s agentId (p_now pe)" using assms by (auto simp: inCooldown_def)
  then have "pollTick s p agentId pe = (Skipped, s, p)" by (simp add: pollTick_def)
  then show ?thesis using createAgentPost_ignores_cooldowns by blast
qed

theorem poll_skipped_in_cooldown_witness:
  "apiCooldowns coolingState ''bot1'' = Some 900000 \<and> p_now quietPoll < 900000 \<and>
   0 \<le> p_now quietPoll \<and>
   pollTick coolingState examplePoller ''bot1'' quietPoll = (Skipped, coolingState, examplePoller) \<and>
   fst (pollTick exampleState examplePoller ''bot1'' quietPoll) = Completed \<and>
   trace (fst (snd (pollTick exampleState examplePoller ''bot1'' quietPoll)))
     = [CallMe ''bot1'', CallGetAgentMentions ''bot1'' None]"
proof -
  have c: "apiCooldowns coolingState ''bot1'' = Some 900000"
    by (simp add: coolingState_def)
  have n: "p_now quietPoll < 900000" "0 \<le> p_now quietPoll" by (simp_all add: quietPoll_def)
  have f: "fst (pollTick exampleState examplePoller ''bot1'' quietPoll) = Completed" by code_simp
  have t: "trace (fst (snd (pollTick exampleState examplePoller ''bot1'' quietPoll)))
     = [CallMe ''bot1'', CallGetAgentMentions ''bot1'' None]" by code_simp
  show ?thesis
    using poll_skipped_in_cooldown [OF c n, of examplePoller] c n f t by simp
qed

end
